theory Spec2Isabelle
  imports Complex_Main "HOL-Library.Word"
begin

unbundle bit_operations_syntax

section \<open>Exceptions and the environment\<close>

text \<open>
  Python exceptions are values. \<open>StorageError\<close> stands for whatever the database layer
  raises on a failed round trip, \<open>OtherError\<close> for an exception of the resolver that is
  not a \<open>DNSException\<close>.
\<close>

datatype exn =
    RuntimeError string
  | IndexError
  | ValueError string
  | TypeError string
  | AttributeError string
  | StorageError string
  | OtherError string

text \<open>Times are seconds, as rationals (\<open>datetime.now().timestamp()\<close>, \<open>datetime.utcnow()\<close>).\<close>

type_synonym time = rat

section \<open>The checker (app/services/dnsbl_checker.py)\<close>

subsection \<open>Results\<close>

record check_result =
  res_zone :: string
  res_status :: string
  res_a_records :: "string list"
  res_txt_records :: "string list"
  res_error_reason :: "string option"

text \<open>The dictionaries appended to the three buckets of a \<open>TargetResult\<close>.\<close>

record listed_entry =
  le_zone :: string
  le_a :: "string list"
  le_txt :: "string list"

record blocked_entry =
  be_zone :: string
  be_a :: "string list"
  be_error :: "string option"

record error_entry =
  ee_zone :: string
  ee_error :: string

record target_result =
  tr_target :: string
  tr_target_type :: string
  tr_listed :: "listed_entry list"
  tr_blocked :: "blocked_entry list"
  tr_errors :: "error_entry list"
  tr_not_listed_zones_count :: nat

subsection \<open>Resolver, configuration and state\<close>

text \<open>
  What \<open>resolver.resolve\<close> does on one call: an answer with its records, one of the four
  DNS exceptions that \<open>_query_dns\<close> catches, or any other exception.
\<close>

datatype dns_outcome =
    Answer "string list"
  | NXDOMAIN
  | NoAnswer
  | Timeout
  | DNSException
  | Raises exn

text \<open>
  The network is an oracle: \<open>resolve k q rr\<close> is what the \<open>k\<close>-th resolver call of the
  process answers to the query \<open>q\<close> of record type \<open>rr\<close>. The other fields are the
  constructor arguments of \<open>DNSBLChecker\<close> and \<open>settings.SPAMHAUS_ZONES\<close>.
\<close>

record checker_env =
  resolve :: "nat \<Rightarrow> string \<Rightarrow> string \<Rightarrow> dns_outcome"
  max_requests :: int
  cache_ttl :: time
  cache_maxsize :: int
  spamhaus_zones :: "string list"

text \<open>
  A \<open>TTLCache\<close> of the cachetools library, as the list of its live links in order of use
  (the head is the next victim of \<open>popitem\<close>): key, value and expiry time. A value is the
  dictionary \<open>{"status": s, "records": rs}\<close>.
\<close>

type_synonym cache_value = "string \<times> string list"
type_synonym ttl_cache = "(string \<times> cache_value \<times> time) list"

text \<open>
  The state shared by all checks of the process. The clock moves where the program sleeps
  and between calls (\<open>advance\<close>); \<open>requests\<close> is the \<open>defaultdict(list)\<close> of the rate
  limiter; \<open>resolver_calls\<close> counts the calls of \<open>resolver.resolve\<close> made so far.
\<close>

record checker_state =
  clock :: time
  requests :: "string \<Rightarrow> time list"
  cache :: ttl_cache
  resolver_calls :: nat

definition advance :: "time \<Rightarrow> 's checker_state_scheme \<Rightarrow> 's checker_state_scheme" where
  "advance d st = st\<lparr>clock := clock st + d\<rparr>"

subsection \<open>RateLimiter.acquire\<close>

text \<open>
  The whole body runs under the limiter's lock, the sleep included, so calls of \<open>acquire\<close>
  never overlap: one call is one step on the state. \<open>now\<close> and \<open>cutoff\<close> are computed
  once, before the sleep. \<open>self.requests[zone][0]\<close> on an empty list raises IndexError.
\<close>

definition acquire ::
  "'e checker_env_scheme \<Rightarrow> string \<Rightarrow> 's checker_state_scheme
     \<Rightarrow> (exn + unit) \<times> 's checker_state_scheme" where
  "acquire env zone st =
     (let now = clock st;
          cutoff = now - 1;
          reqs = filter (\<lambda>t. t > cutoff) (requests st zone);
          st1 = st\<lparr>requests := (requests st)(zone := reqs)\<rparr>
      in if int (length reqs) \<ge> max_requests env then
           (case reqs of
              [] \<Rightarrow> (Inl IndexError, st1)
            | t0 # _ \<Rightarrow>
                (let sleep_time = t0 - cutoff
                 in if sleep_time > 0 then
                      (let st2 = st1\<lparr>clock := clock st1 + sleep_time\<rparr>;
                           reqs2 = filter (\<lambda>t. t > cutoff) reqs
                       in (Inr (), st2\<lparr>requests := (requests st2)(zone := reqs2 @ [now])\<rparr>))
                    else (Inr (), st1\<lparr>requests := (requests st1)(zone := reqs @ [now])\<rparr>)))
         else (Inr (), st1\<lparr>requests := (requests st1)(zone := reqs @ [now])\<rparr>))"

subsection \<open>The result cache\<close>

definition make_cache_key :: "string \<Rightarrow> string \<Rightarrow> string \<Rightarrow> string" where
  "make_cache_key target zone rrtype = target @ '':'' @ zone @ '':'' @ rrtype"

definition expire :: "time \<Rightarrow> ttl_cache \<Rightarrow> ttl_cache" where
  "expire t c = filter (\<lambda>(k, v, e). t < e) c"

text \<open>
  \<open>TTLCache.get\<close>: a hit needs a link that has not expired at the time of the call; a hit
  moves the link to the end of the order of use.
\<close>

definition cache_get :: "time \<Rightarrow> string \<Rightarrow> ttl_cache \<Rightarrow> cache_value option \<times> ttl_cache" where
  "cache_get t key c =
     (case find (\<lambda>(k, v, e). k = key) c of
        None \<Rightarrow> (None, c)
      | Some (k, v, e) \<Rightarrow>
          if t < e then (Some v, filter (\<lambda>(k', v', e'). k' \<noteq> key) c @ [(key, v, e)])
          else (None, c))"

text \<open>
  \<open>TTLCache.__setitem__\<close>: expired links are dropped first; an item larger than
  \<open>maxsize\<close> (every item has size 1) raises ValueError; a new key makes room by removing
  links from the head; the link is then placed last with expiry \<open>t + ttl\<close>.
\<close>

definition cache_set ::
  "time \<Rightarrow> time \<Rightarrow> int \<Rightarrow> string \<Rightarrow> cache_value \<Rightarrow> ttl_cache \<Rightarrow> exn + ttl_cache" where
  "cache_set t ttl maxsize key v c =
     (let c1 = expire t c
      in if 1 > maxsize then Inl (ValueError ''value too large'')
         else
           (let c2 = (if find (\<lambda>(k, v', e). k = key) c1 = None
                      then drop (nat (int (length c1) + 1 - maxsize)) c1 else c1)
            in Inr (filter (\<lambda>(k, v', e). k \<noteq> key) c2 @ [(key, v, t + ttl)])))"

definition get_cached ::
  "string \<Rightarrow> string \<Rightarrow> string \<Rightarrow> 's checker_state_scheme
     \<Rightarrow> cache_value option \<times> 's checker_state_scheme" where
  "get_cached target zone rrtype st =
     (let key = make_cache_key target zone rrtype;
          (r, c) = cache_get (clock st) key (cache st)
      in (r, st\<lparr>cache := c\<rparr>))"

definition set_cache ::
  "'e checker_env_scheme \<Rightarrow> string \<Rightarrow> string \<Rightarrow> string \<Rightarrow> cache_value
     \<Rightarrow> 's checker_state_scheme \<Rightarrow> (exn + unit) \<times> 's checker_state_scheme" where
  "set_cache env target zone rrtype result st =
     (let key = make_cache_key target zone rrtype
      in case cache_set (clock st) (cache_ttl env) (cache_maxsize env) key result (cache st) of
           Inl e \<Rightarrow> (Inl e, st)
         | Inr c \<Rightarrow> (Inr (), st\<lparr>cache := c\<rparr>))"

subsection \<open>IPv4 addresses (ipaddress.IPv4Address on a string)\<close>

definition is_digit :: "char \<Rightarrow> bool" where
  "is_digit c = (48 \<le> (of_char c :: nat) \<and> (of_char c :: nat) \<le> 57)"

definition digit_val :: "char \<Rightarrow> nat" where
  "digit_val c = of_char c - 48"

fun split_on :: "char \<Rightarrow> string \<Rightarrow> string list" where
  "split_on sep [] = [[]]"
| "split_on sep (c # cs) =
     (if c = sep then [] # split_on sep cs
      else (case split_on sep cs of
              [] \<Rightarrow> [[c]]
            | w # ws \<Rightarrow> (c # w) # ws))"

definition parse_octet :: "string \<Rightarrow> nat option" where
  "parse_octet s =
     (if s = [] then None
      else if \<not> list_all is_digit s then None
      else if length s > 3 then None
      else if s \<noteq> ''0'' \<and> hd s = CHR ''0'' then None
      else (let n = foldl (\<lambda>a c. 10 * a + digit_val c) 0 s
            in if n > 255 then None else Some n))"

definition ipv4_address :: "string \<Rightarrow> 32 word option" where
  "ipv4_address s =
     (if CHR ''/'' \<in> set s then None
      else if s = [] then None
      else (let octets = split_on CHR ''.'' s
            in if length octets \<noteq> 4 then None
               else (case map parse_octet octets of
                       [Some a, Some b, Some c, Some d] \<Rightarrow>
                         Some (word_of_nat (((a * 256 + b) * 256 + c) * 256 + d))
                     | _ \<Rightarrow> None)))"

definition digit_char :: "nat \<Rightarrow> char" where
  "digit_char n = ''0123456789'' ! n"

definition octet_str :: "nat \<Rightarrow> string" where
  "octet_str n =
     (if n < 10 then [digit_char n]
      else if n < 100 then [digit_char (n div 10), digit_char (n mod 10)]
      else [digit_char (n div 100), digit_char (n div 10 mod 10), digit_char (n mod 10)])"

definition ipv4_octets :: "32 word \<Rightarrow> nat list" where
  "ipv4_octets w =
     [unat (drop_bit 24 w AND 255), unat (drop_bit 16 w AND 255),
      unat (drop_bit 8 w AND 255), unat (w AND 255)]"

fun join_dots :: "string list \<Rightarrow> string" where
  "join_dots [] = []"
| "join_dots [s] = s"
| "join_dots (s # t # ss) = s @ ''.'' @ join_dots (t # ss)"

definition is_spamhaus_blocked :: "string \<Rightarrow> bool" where
  "is_spamhaus_blocked ip_str =
     (case ipv4_address ip_str of
        Some ip \<Rightarrow> ip AND 0xFFFFFF00 = 0x7FFFFF00
      | None \<Rightarrow> False)"

definition is_spamhaus_listed :: "string \<Rightarrow> bool" where
  "is_spamhaus_listed ip_str =
     (case ipv4_address ip_str of
        Some ip \<Rightarrow> ip AND 0xFFFFFF00 = 0x7F000000
      | None \<Rightarrow> False)"

definition build_dnsbl_query :: "string \<Rightarrow> string \<Rightarrow> string" where
  "build_dnsbl_query ip zone =
     (case ipv4_address ip of
        Some ip_obj \<Rightarrow> join_dots (rev (map octet_str (ipv4_octets ip_obj))) @ ''.'' @ zone
      | None \<Rightarrow> ip @ ''.'' @ zone)"

subsection \<open>DNSBLChecker._query_dns\<close>

text \<open>
  The rate limiter is asked first, then the cache; only a miss reaches the resolver. Each
  of the five outcomes that the function handles is stored before it is returned; an
  exception that is not a \<open>DNSException\<close> propagates, and so does a ValueError of the
  cache.
\<close>

definition cache_and_return ::
  "'e checker_env_scheme \<Rightarrow> string \<Rightarrow> string \<Rightarrow> string \<Rightarrow> cache_value
     \<Rightarrow> 's checker_state_scheme \<Rightarrow> (exn + cache_value) \<times> 's checker_state_scheme" where
  "cache_and_return env target zone rrtype result st =
     (case set_cache env target zone rrtype result st of
        (Inl e, st1) \<Rightarrow> (Inl e, st1)
      | (Inr u, st1) \<Rightarrow> (Inr result, st1))"

definition query_dns ::
  "'e checker_env_scheme \<Rightarrow> string \<Rightarrow> string \<Rightarrow> string
     \<Rightarrow> 's checker_state_scheme \<Rightarrow> (exn + cache_value) \<times> 's checker_state_scheme" where
  "query_dns env target zone rrtype st =
     (case acquire env zone st of
        (Inl e, st1) \<Rightarrow> (Inl e, st1)
      | (Inr u, st1) \<Rightarrow>
          (case get_cached target zone rrtype st1 of
             (Some cached, st2) \<Rightarrow> (Inr cached, st2)
           | (None, st2) \<Rightarrow>
               (let query_target = build_dnsbl_query target zone;
                    answer = resolve env (resolver_calls st2) query_target rrtype;
                    st3 = st2\<lparr>resolver_calls := Suc (resolver_calls st2)\<rparr>
                in case answer of
                     Answer records \<Rightarrow>
                       cache_and_return env target zone rrtype (''success'', records) st3
                   | NXDOMAIN \<Rightarrow> cache_and_return env target zone rrtype (''nxdomain'', []) st3
                   | NoAnswer \<Rightarrow> cache_and_return env target zone rrtype (''noanswer'', []) st3
                   | Timeout \<Rightarrow> cache_and_return env target zone rrtype (''timeout'', []) st3
                   | DNSException \<Rightarrow> cache_and_return env target zone rrtype (''error'', []) st3
                   | Raises e \<Rightarrow> (Inl e, st3))))"

subsection \<open>DNSBLChecker.check_zone\<close>

definition check_zone ::
  "'e checker_env_scheme \<Rightarrow> string \<Rightarrow> string \<Rightarrow> bool
     \<Rightarrow> 's checker_state_scheme \<Rightarrow> (exn + check_result) \<times> 's checker_state_scheme" where
  "check_zone env target zone include_txt st =
     (case query_dns env target zone ''A'' st of
        (Inl e, st1) \<Rightarrow> (Inl e, st1)
      | (Inr (a_status, a_records), st1) \<Rightarrow>
          if a_status \<in> set [''nxdomain'', ''noanswer''] then
            (Inr \<lparr>res_zone = zone, res_status = ''not_listed'', res_a_records = [],
                  res_txt_records = [], res_error_reason = None\<rparr>, st1)
          else if a_status \<in> set [''timeout'', ''error''] then
            (Inr \<lparr>res_zone = zone, res_status = ''error'', res_a_records = [],
                  res_txt_records = [], res_error_reason = Some a_status\<rparr>, st1)
          else if a_records = [] then
            (Inr \<lparr>res_zone = zone, res_status = ''not_listed'', res_a_records = [],
                  res_txt_records = [], res_error_reason = None\<rparr>, st1)
          else if zone \<in> set (spamhaus_zones env) \<and> list_ex is_spamhaus_blocked a_records then
            (Inr \<lparr>res_zone = zone, res_status = ''blocked'', res_a_records = a_records,
                  res_txt_records = [], res_error_reason = Some ''Blocked/limits''\<rparr>, st1)
          else if include_txt then
            (case query_dns env target zone ''TXT'' st1 of
               (Inl e, st2) \<Rightarrow> (Inl e, st2)
             | (Inr (txt_status, txt_records), st2) \<Rightarrow>
                 (Inr \<lparr>res_zone = zone, res_status = ''listed'', res_a_records = a_records,
                       res_txt_records = txt_records, res_error_reason = None\<rparr>, st2))
          else
            (Inr \<lparr>res_zone = zone, res_status = ''listed'', res_a_records = a_records,
                  res_txt_records = [], res_error_reason = None\<rparr>, st1))"

subsection \<open>DNSBLChecker.check_target\<close>

text \<open>
  \<open>asyncio.gather(*tasks, return_exceptions=True)\<close> returns one element per zone, in the
  order of the zones: the pair \<open>(zone, result)\<close> that \<open>check_single\<close> returns, or the
  exception the task raised. The tasks are run here one after the other in that order.
\<close>

fun gather_zone_checks ::
  "'e checker_env_scheme \<Rightarrow> string \<Rightarrow> bool \<Rightarrow> string list \<Rightarrow> 's checker_state_scheme
     \<Rightarrow> (exn + string \<times> check_result) list \<times> 's checker_state_scheme" where
  "gather_zone_checks env target include_txt [] st = ([], st)"
| "gather_zone_checks env target include_txt (zone # zs) st =
     (case check_zone env target zone include_txt st of
        (r, st1) \<Rightarrow>
          (case gather_zone_checks env target include_txt zs st1 of
             (rs, st2) \<Rightarrow>
               ((case r of Inl e \<Rightarrow> Inl e | Inr result \<Rightarrow> Inr (zone, result)) # rs, st2)))"

record buckets =
  b_listed :: "listed_entry list"
  b_blocked :: "blocked_entry list"
  b_errors :: "error_entry list"
  b_not_listed_count :: nat

text \<open>
  One turn of the loop \<open>for zone, result in results\<close> on a pair. The test
  \<open>isinstance(result, Exception)\<close> is on the second component of the pair, which is a
  \<open>CheckResult\<close>, so that branch is never taken.
\<close>

definition aggregate_one :: "string \<Rightarrow> check_result \<Rightarrow> buckets \<Rightarrow> buckets" where
  "aggregate_one zone result b =
     (if res_status result = ''listed'' then
        b\<lparr>b_listed := b_listed b @
             [\<lparr>le_zone = zone, le_a = res_a_records result, le_txt = res_txt_records result\<rparr>]\<rparr>
      else if res_status result = ''blocked'' then
        b\<lparr>b_blocked := b_blocked b @
             [\<lparr>be_zone = zone, be_a = res_a_records result, be_error = res_error_reason result\<rparr>]\<rparr>
      else if res_status result = ''error'' then
        b\<lparr>b_errors := b_errors b @
             [\<lparr>ee_zone = zone,
               ee_error = (case res_error_reason result of
                             None \<Rightarrow> ''Unknown error''
                           | Some r \<Rightarrow> if r = [] then ''Unknown error'' else r)\<rparr>]\<rparr>
      else if res_status result = ''not_listed'' then
        b\<lparr>b_not_listed_count := b_not_listed_count b + 1\<rparr>
      else b)"

text \<open>
  The loop header unpacks every element of \<open>results\<close> into two names. An element that is
  an exception object is not iterable, and the unpacking raises TypeError there.
\<close>

fun aggregate :: "(exn + string \<times> check_result) list \<Rightarrow> buckets \<Rightarrow> exn + buckets" where
  "aggregate [] b = Inr b"
| "aggregate (Inl e # rs) b = Inl (TypeError ''cannot unpack non-iterable object'')"
| "aggregate (Inr (zone, result) # rs) b = aggregate rs (aggregate_one zone result b)"

definition check_target ::
  "'e checker_env_scheme \<Rightarrow> string \<Rightarrow> string list \<Rightarrow> bool
     \<Rightarrow> 's checker_state_scheme \<Rightarrow> (exn + target_result) \<times> 's checker_state_scheme" where
  "check_target env target zones include_txt st =
     (let target_type = (if ipv4_address target \<noteq> None then ''ip'' else ''domain'')
      in case gather_zone_checks env target include_txt zones st of
           (results, st1) \<Rightarrow>
             (case aggregate results
                     \<lparr>b_listed = [], b_blocked = [], b_errors = [], b_not_listed_count = 0\<rparr> of
                Inl e \<Rightarrow> (Inl e, st1)
              | Inr b \<Rightarrow>
                  (Inr \<lparr>tr_target = target, tr_target_type = target_type,
                        tr_listed = b_listed b, tr_blocked = b_blocked b, tr_errors = b_errors b,
                        tr_not_listed_zones_count = b_not_listed_count b\<rparr>, st1)))"

subsection \<open>DNSBLChecker.check_multiple\<close>

record summary =
  total_ips :: nat
  listed_ips :: nat
  blocked_ips :: nat
  error_ips :: nat

fun gather_target_checks ::
  "'e checker_env_scheme \<Rightarrow> string list \<Rightarrow> bool \<Rightarrow> string list \<Rightarrow> 's checker_state_scheme
     \<Rightarrow> (exn + target_result) list \<times> 's checker_state_scheme" where
  "gather_target_checks env zones include_txt [] st = ([], st)"
| "gather_target_checks env zones include_txt (target # ts) st =
     (case check_target env target zones include_txt st of
        (r, st1) \<Rightarrow>
          (case gather_target_checks env zones include_txt ts st1 of
             (rs, st2) \<Rightarrow> (r # rs, st2)))"

fun summarise ::
  "(exn + target_result) list \<Rightarrow> summary \<times> target_result list
     \<Rightarrow> summary \<times> target_result list" where
  "summarise [] acc = acc"
| "summarise (Inl e # rs) (s, results) =
     summarise rs (s\<lparr>error_ips := error_ips s + 1\<rparr>, results)"
| "summarise (Inr result # rs) (s, results) =
     (let s1 = (if tr_listed result \<noteq> [] then s\<lparr>listed_ips := listed_ips s + 1\<rparr> else s);
          s2 = (if tr_blocked result \<noteq> [] then s1\<lparr>blocked_ips := blocked_ips s1 + 1\<rparr> else s1);
          s3 = (if tr_errors result \<noteq> [] \<and> tr_listed result = [] \<and> tr_blocked result = []
                then s2\<lparr>error_ips := error_ips s2 + 1\<rparr> else s2)
      in summarise rs (s3, results @ [result]))"

definition check_multiple ::
  "'e checker_env_scheme \<Rightarrow> string list \<Rightarrow> string list \<Rightarrow> bool
     \<Rightarrow> 's checker_state_scheme
     \<Rightarrow> (summary \<times> target_result list) \<times> 's checker_state_scheme" where
  "check_multiple env targets zones include_txt st =
     (case gather_target_checks env zones include_txt targets st of
        (target_results, st1) \<Rightarrow>
          (summarise target_results
             (\<lparr>total_ips = length targets, listed_ips = 0, blocked_ips = 0, error_ips = 0\<rparr>, []),
           st1))"

section \<open>Stored rows (app/models/database.py)\<close>

text \<open>
  Only the columns that the monitoring service reads or writes are kept. The JSON text of
  \<open>a_records\<close> is kept as the list it encodes.
\<close>

record target_row =
  t_id :: int
  t_target :: string
  t_enabled :: bool

record zone_row =
  z_id :: int
  z_zone :: string
  z_enabled :: bool

record check_result_row =
  cr_target_id :: int
  cr_zone_id :: int
  cr_status :: string
  cr_a_records :: "string list option"
  cr_error_reason :: "string option"
  cr_last_seen :: time
  cr_last_checked :: time
  cr_run_id :: "int option"

record monitor_run =
  r_id :: int
  r_triggered_by :: string
  r_status :: string
  r_error_message :: "string option"
  r_total_targets :: int
  r_total_zones :: int
  r_total_checks :: int
  r_listed_count :: int
  r_blocked_count :: int
  r_error_count :: int
  r_started_at :: time
  r_finished_at :: "time option"
  r_duration_seconds :: "int option"

record alert_row =
  a_id :: int
  a_alert_type :: string
  a_target_id :: "int option"
  a_zone :: string
  a_old_status :: "string option"
  a_new_status :: string
  a_message :: string
  a_webhook_sent :: bool
  a_webhook_status :: "string option"
  a_webhook_error :: "string option"
  a_created_at :: time

record db =
  db_targets :: "target_row list"
  db_zones :: "zone_row list"
  db_check_results :: "check_result_row list"
  db_monitor_runs :: "monitor_run list"
  db_alerts :: "alert_row list"

section \<open>The monitoring service (app/services/monitoring.py)\<close>

subsection \<open>State and environment\<close>

text \<open>
  \<open>Dispatch r\<close> records a call of \<open>_send_webhooks\<close> for the run \<open>r\<close>, \<open>Release\<close> an
  assignment \<open>self._is_running = False\<close>: the order of the two is what the log is for.
\<close>

datatype event = Dispatch int | Release

text \<open>
  The process: the checker singleton, the \<open>_is_running\<close> flag of the service, the
  database as the session sees it, and the number of round trips to the database so far.
  \<open>datetime.utcnow()\<close> reads the clock.
\<close>

record world = checker_state +
  is_running :: bool
  store :: db
  db_calls :: nat
  events :: "event list"

text \<open>
  Every \<open>.all()\<close>, \<open>.first()\<close>, \<open>flush()\<close> and \<open>commit()\<close> is a round trip that the
  storage may fail: \<open>storage_fault k\<close> says whether the \<open>k\<close>-th round trip of the process
  raises. \<open>webhook_post\<close> is the outcome of the POST with \<open>raise_for_status\<close>: the text
  of the exception, or None on success.
\<close>

record env = checker_env +
  storage_fault :: "nat \<Rightarrow> bool"
  webhook_url :: string
  webhook_post :: "monitor_run \<Rightarrow> alert_row list \<Rightarrow> string option"

fun str_exn :: "exn \<Rightarrow> string" where
  "str_exn (RuntimeError m) = m"
| "str_exn IndexError = ''list index out of range''"
| "str_exn (ValueError m) = m"
| "str_exn (TypeError m) = m"
| "str_exn (AttributeError m) = m"
| "str_exn (StorageError m) = m"
| "str_exn (OtherError m) = m"

definition and_then ::
  "('s \<Rightarrow> (exn + 'a) \<times> 's) \<Rightarrow> ('a \<Rightarrow> 's \<Rightarrow> (exn + 'b) \<times> 's) \<Rightarrow> 's \<Rightarrow> (exn + 'b) \<times> 's" where
  "and_then m f s = (case m s of (Inl e, s1) \<Rightarrow> (Inl e, s1) | (Inr a, s1) \<Rightarrow> f a s1)"

definition db_call :: "env \<Rightarrow> world \<Rightarrow> (exn + unit) \<times> world" where
  "db_call env w =
     (let w1 = w\<lparr>db_calls := Suc (db_calls w)\<rparr>
      in if storage_fault env (db_calls w) then (Inl (StorageError ''storage failure''), w1)
         else (Inr (), w1))"

text \<open>\<open>int(x)\<close> on a number of seconds truncates towards zero.\<close>

definition py_int :: "rat \<Rightarrow> int" where
  "py_int x = (if 0 \<le> x then \<lfloor>x\<rfloor> else \<lceil>x\<rceil>)"

text \<open>A dictionary built by a comprehension over a list: a later entry replaces an earlier one.\<close>

definition dict_of :: "('k \<times> 'v) list \<Rightarrow> 'k \<Rightarrow> 'v option" where
  "dict_of kvs = map_of (rev kvs)"

fun update_first :: "('a \<Rightarrow> bool) \<Rightarrow> ('a \<Rightarrow> 'a) \<Rightarrow> 'a list \<Rightarrow> 'a list" where
  "update_first P f [] = []"
| "update_first P f (x # xs) = (if P x then f x # xs else x # update_first P f xs)"

definition put_run :: "monitor_run \<Rightarrow> world \<Rightarrow> world" where
  "put_run run w =
     (let runs = db_monitor_runs (store w)
      in w\<lparr>store := (store w)\<lparr>db_monitor_runs :=
            (if list_ex (\<lambda>r. r_id r = r_id run) runs
             then map (\<lambda>r. if r_id r = r_id run then run else r) runs
             else runs @ [run])\<rparr>\<rparr>)"

definition update_run :: "int \<Rightarrow> (monitor_run \<Rightarrow> monitor_run) \<Rightarrow> world \<Rightarrow> world" where
  "update_run rid f w =
     w\<lparr>store := (store w)\<lparr>db_monitor_runs :=
          map (\<lambda>r. if r_id r = rid then f r else r) (db_monitor_runs (store w))\<rparr>\<rparr>"

definition release :: "world \<Rightarrow> world" where
  "release w = w\<lparr>is_running := False, events := events w @ [Release]\<rparr>"

subsection \<open>MonitoringService._save_check_result\<close>

text \<open>
  \<open>existing\<close> is the first stored row of the pair, if there is one. It is updated in
  place; otherwise a new row is added.
\<close>

definition save_check_result ::
  "env \<Rightarrow> target_row \<Rightarrow> zone_row \<Rightarrow> string \<Rightarrow> string list \<Rightarrow> int \<Rightarrow> string option
     \<Rightarrow> world \<Rightarrow> (exn + unit) \<times> world" where
  "save_check_result env target zone status a_records run_id error_reason w =
     (case db_call env w of
        (Inl e, w1) \<Rightarrow> (Inl e, w1)
      | (Inr u, w1) \<Rightarrow>
          (let rows = db_check_results (store w1);
               is_pair = (\<lambda>r. cr_target_id r = t_id target \<and> cr_zone_id r = z_id zone);
               dumped = (if a_records \<noteq> [] then Some a_records else None);
               now = clock w1
           in case find is_pair rows of
                Some existing \<Rightarrow>
                  (Inr (),
                   w1\<lparr>store := (store w1)\<lparr>db_check_results :=
                        update_first is_pair
                          (\<lambda>r. r\<lparr>cr_status := status,
                                 cr_a_records := dumped,
                                 cr_last_checked := now,
                                 cr_last_seen := (if status \<noteq> ''not_listed'' then now
                                                  else cr_last_seen r),
                                 cr_error_reason := error_reason,
                                 cr_run_id := Some run_id\<rparr>) rows\<rparr>\<rparr>)
              | None \<Rightarrow>
                  (Inr (),
                   w1\<lparr>store := (store w1)\<lparr>db_check_results := rows @
                        [\<lparr>cr_target_id = t_id target, cr_zone_id = z_id zone,
                          cr_status = status, cr_a_records = dumped,
                          cr_error_reason = error_reason,
                          cr_last_seen = (if status \<noteq> ''not_listed'' then now else now),
                          cr_last_checked = now, cr_run_id = Some run_id\<rparr>]\<rparr>\<rparr>)))"

subsection \<open>MonitoringService._create_alert\<close>

definition create_alert ::
  "target_row option \<Rightarrow> string \<Rightarrow> string \<Rightarrow> string option \<Rightarrow> string \<Rightarrow> string
     \<Rightarrow> world \<Rightarrow> alert_row \<times> world" where
  "create_alert target alert_type zone old_status new_status message w =
     (let alert = \<lparr>a_id = int (length (db_alerts (store w))) + 1,
                    a_alert_type = alert_type,
                    a_target_id = map_option t_id target,
                    a_zone = zone,
                    a_old_status = old_status,
                    a_new_status = new_status,
                    a_message = message,
                    a_webhook_sent = False,
                    a_webhook_status = None,
                    a_webhook_error = None,
                    a_created_at = clock w\<rparr>
      in (alert, w\<lparr>store := (store w)\<lparr>db_alerts := db_alerts (store w) @ [alert]\<rparr>\<rparr>))"

subsection \<open>The result loops of run_monitoring\<close>

record counters =
  total_checks :: int
  listed_count :: int
  blocked_count :: int
  error_count :: int

fun process_listed ::
  "env \<Rightarrow> (int \<times> int \<Rightarrow> string option) \<Rightarrow> target_row \<Rightarrow> (string \<Rightarrow> zone_row option) \<Rightarrow> int
     \<Rightarrow> listed_entry list \<Rightarrow> counters \<Rightarrow> world \<Rightarrow> (exn + counters) \<times> world" where
  "process_listed env previous_statuses target zone_map run_id [] cnt w = (Inr cnt, w)"
| "process_listed env previous_statuses target zone_map run_id (entry # rest) cnt w =
     (case zone_map (le_zone entry) of
        None \<Rightarrow> process_listed env previous_statuses target zone_map run_id rest cnt w
      | Some zone \<Rightarrow>
          (case save_check_result env target zone ''listed'' (le_a entry) run_id None w of
             (Inl e, w1) \<Rightarrow> (Inl e, w1)
           | (Inr u, w1) \<Rightarrow>
               (let cnt1 = cnt\<lparr>listed_count := listed_count cnt + 1,
                              total_checks := total_checks cnt + 1\<rparr>;
                    prev_status = previous_statuses (t_id target, z_id zone);
                    w2 = (if prev_status \<noteq> Some ''listed''
                          then snd (create_alert (Some target) ''newly_listed'' (z_zone zone)
                                      prev_status ''listed''
                                      (''Target '' @ t_target target @ '' is now listed on ''
                                         @ z_zone zone) w1)
                          else w1)
                in process_listed env previous_statuses target zone_map run_id rest cnt1 w2)))"

fun process_blocked ::
  "env \<Rightarrow> (int \<times> int \<Rightarrow> string option) \<Rightarrow> target_row \<Rightarrow> (string \<Rightarrow> zone_row option) \<Rightarrow> int
     \<Rightarrow> blocked_entry list \<Rightarrow> counters \<Rightarrow> world \<Rightarrow> (exn + counters) \<times> world" where
  "process_blocked env previous_statuses target zone_map run_id [] cnt w = (Inr cnt, w)"
| "process_blocked env previous_statuses target zone_map run_id (entry # rest) cnt w =
     (case zone_map (be_zone entry) of
        None \<Rightarrow> process_blocked env previous_statuses target zone_map run_id rest cnt w
      | Some zone \<Rightarrow>
          (case save_check_result env target zone ''blocked'' (be_a entry) run_id None w of
             (Inl e, w1) \<Rightarrow> (Inl e, w1)
           | (Inr u, w1) \<Rightarrow>
               (let cnt1 = cnt\<lparr>blocked_count := blocked_count cnt + 1,
                              total_checks := total_checks cnt + 1\<rparr>;
                    prev_status = previous_statuses (t_id target, z_id zone);
                    w2 = (if prev_status \<noteq> Some ''blocked''
                          then snd (create_alert (Some target) ''blocked'' (z_zone zone)
                                      prev_status ''blocked''
                                      (''Target '' @ t_target target @ '' is blocked on ''
                                         @ z_zone zone @ '' (limits reached)'') w1)
                          else w1)
                in process_blocked env previous_statuses target zone_map run_id rest cnt1 w2)))"

fun process_errors ::
  "env \<Rightarrow> target_row \<Rightarrow> (string \<Rightarrow> zone_row option) \<Rightarrow> int
     \<Rightarrow> error_entry list \<Rightarrow> counters \<Rightarrow> world \<Rightarrow> (exn + counters) \<times> world" where
  "process_errors env target zone_map run_id [] cnt w = (Inr cnt, w)"
| "process_errors env target zone_map run_id (entry # rest) cnt w =
     (case zone_map (ee_zone entry) of
        None \<Rightarrow> process_errors env target zone_map run_id rest cnt w
      | Some zone \<Rightarrow>
          (case save_check_result env target zone ''error'' [] run_id (Some (ee_error entry)) w of
             (Inl e, w1) \<Rightarrow> (Inl e, w1)
           | (Inr u, w1) \<Rightarrow>
               process_errors env target zone_map run_id rest
                 (cnt\<lparr>error_count := error_count cnt + 1,
                       total_checks := total_checks cnt + 1\<rparr>) w1))"

fun process_results ::
  "env \<Rightarrow> (int \<times> int \<Rightarrow> string option) \<Rightarrow> (string \<Rightarrow> target_row option)
     \<Rightarrow> (string \<Rightarrow> zone_row option) \<Rightarrow> int
     \<Rightarrow> target_result list \<Rightarrow> counters \<Rightarrow> world \<Rightarrow> (exn + counters) \<times> world" where
  "process_results env previous_statuses target_map zone_map run_id [] cnt w = (Inr cnt, w)"
| "process_results env previous_statuses target_map zone_map run_id (result # rest) cnt w =
     (case target_map (tr_target result) of
        None \<Rightarrow> process_results env previous_statuses target_map zone_map run_id rest cnt w
      | Some target \<Rightarrow>
          and_then
            (process_listed env previous_statuses target zone_map run_id (tr_listed result) cnt)
            (\<lambda>cnt1. and_then
               (process_blocked env previous_statuses target zone_map run_id
                  (tr_blocked result) cnt1)
               (\<lambda>cnt2. and_then
                  (process_errors env target zone_map run_id (tr_errors result) cnt2)
                  (\<lambda>cnt3. process_results env previous_statuses target_map zone_map run_id
                             rest cnt3))) w)"

subsection \<open>MonitoringService._send_webhooks\<close>

text \<open>
  The payload names the target of every alert that has a \<open>target_id\<close>: one query each,
  and \<open>.first().target\<close> on a target that is gone raises AttributeError.
\<close>

fun payload_targets ::
  "env \<Rightarrow> alert_row list \<Rightarrow> world \<Rightarrow> (exn + string option list) \<times> world" where
  "payload_targets env [] w = (Inr [], w)"
| "payload_targets env (a # rest) w =
     (case a_target_id a of
        None \<Rightarrow> and_then (payload_targets env rest) (\<lambda>ts w1. (Inr (None # ts), w1)) w
      | Some tid \<Rightarrow>
          and_then (db_call env)
            (\<lambda>u w1. case find (\<lambda>t. t_id t = tid) (db_targets (store w1)) of
                       None \<Rightarrow> (Inl (AttributeError ''target''), w1)
                     | Some t \<Rightarrow>
                         and_then (payload_targets env rest)
                           (\<lambda>ts w2. (Inr (Some (t_target t) # ts), w2)) w1) w)"

definition mark_alerts :: "(alert_row \<Rightarrow> alert_row) \<Rightarrow> alert_row list \<Rightarrow> world \<Rightarrow> world" where
  "mark_alerts f pending w =
     w\<lparr>store := (store w)\<lparr>db_alerts :=
          map (\<lambda>a. if a_id a \<in> set (map a_id pending) then f a else a)
            (db_alerts (store w))\<rparr>\<rparr>"

definition mark_failed :: "string \<Rightarrow> alert_row list \<Rightarrow> world \<Rightarrow> world" where
  "mark_failed err pending w =
     mark_alerts (\<lambda>a. a\<lparr>a_webhook_sent := False, a_webhook_status := Some ''failed'',
                         a_webhook_error := Some err\<rparr>) pending w"

definition send_webhooks :: "env \<Rightarrow> monitor_run \<Rightarrow> world \<Rightarrow> (exn + unit) \<times> world" where
  "send_webhooks env run w =
     (if webhook_url env = [] then (Inr (), w)
      else and_then (db_call env)
        (\<lambda>u w1.
           (let pending = filter (\<lambda>a. \<not> a_webhook_sent a \<and> r_started_at run \<le> a_created_at a)
                            (db_alerts (store w1))
            in if pending = [] then (Inr (), w1)
               else and_then (payload_targets env pending)
                 (\<lambda>names w2.
                    case webhook_post env run pending of
                      None \<Rightarrow>
                        (let w3 = mark_alerts
                                    (\<lambda>a. a\<lparr>a_webhook_sent := True,
                                             a_webhook_status := Some ''sent''\<rparr>) pending w2
                         in case db_call env w3 of
                              (Inr u2, w4) \<Rightarrow> (Inr (), w4)
                            | (Inl e, w4) \<Rightarrow> db_call env (mark_failed (str_exn e) pending w4))
                    | Some err \<Rightarrow> db_call env (mark_failed err pending w2)) w1)) w)"

subsection \<open>MonitoringService.run_monitoring\<close>

text \<open>The snapshot of the stored statuses, one query for each target.\<close>

fun snapshot ::
  "env \<Rightarrow> zone_row list \<Rightarrow> target_row list \<Rightarrow> (int \<times> int \<Rightarrow> string option) \<Rightarrow> world
     \<Rightarrow> (exn + (int \<times> int \<Rightarrow> string option)) \<times> world" where
  "snapshot env zs [] previous_statuses w = (Inr previous_statuses, w)"
| "snapshot env zs (target # rest) previous_statuses w =
     and_then (db_call env)
       (\<lambda>u w1.
          (let previous_results =
                 filter (\<lambda>r. cr_target_id r = t_id target \<and> cr_zone_id r \<in> set (map z_id zs))
                   (db_check_results (store w1))
           in snapshot env zs rest
                (fold (\<lambda>pr m. m((t_id target, cr_zone_id pr) \<mapsto> cr_status pr))
                   previous_results previous_statuses) w1)) w"

text \<open>\<open>if target_ids:\<close> filters only on a list that is neither None nor empty.\<close>

definition in_ids :: "int list option \<Rightarrow> int \<Rightarrow> bool" where
  "in_ids ids i = (case ids of None \<Rightarrow> True | Some l \<Rightarrow> l = [] \<or> i \<in> set l)"

datatype scope = EmptyScope | Checked

text \<open>
  The body of the \<open>try\<close> up to the \<open>db.commit()\<close> that ends the run: steps 2 to 6 of the
  protocol. The result says which of the two commits was reached, with the run object.
\<close>

definition run_checks ::
  "env \<Rightarrow> monitor_run \<Rightarrow> int list option \<Rightarrow> int list option \<Rightarrow> world
     \<Rightarrow> (exn + scope \<times> monitor_run) \<times> world" where
  "run_checks env run target_ids zone_ids w =
     and_then (db_call env) (\<lambda>u1 w1.
       let ts = filter (\<lambda>t. t_enabled t \<and> in_ids target_ids (t_id t)) (db_targets (store w1))
       in and_then (db_call env) (\<lambda>u2 w2.
         let zs = filter (\<lambda>z. z_enabled z \<and> in_ids zone_ids (z_id z)) (db_zones (store w2));
             run1 = run\<lparr>r_total_targets := int (length ts), r_total_zones := int (length zs)\<rparr>
         in and_then (db_call env) (\<lambda>u3 w3.
           if ts = [] \<or> zs = [] then
             (let run2 = run1\<lparr>r_status := ''completed'', r_finished_at := Some (clock w3),
                              r_duration_seconds := Some 0\<rparr>
              in and_then (db_call env) (\<lambda>u4 w4. (Inr (EmptyScope, run2), w4)) (put_run run2 w3))
           else
             and_then (snapshot env zs ts Map.empty) (\<lambda>previous_statuses w4.
               case check_multiple env (map t_target ts) (map z_zone zs) False w4 of
                 ((summ, target_results), w5) \<Rightarrow>
                   and_then
                     (process_results env previous_statuses
                        (dict_of (map (\<lambda>t. (t_target t, t)) ts))
                        (dict_of (map (\<lambda>z. (z_zone z, z)) zs))
                        (r_id run1) target_results
                        \<lparr>total_checks = 0, listed_count = 0, blocked_count = 0,
                          error_count = 0\<rparr>)
                     (\<lambda>cnt w6.
                        let run2 = run1\<lparr>r_total_checks := total_checks cnt,
                                         r_listed_count := listed_count cnt,
                                         r_blocked_count := blocked_count cnt,
                                         r_error_count := error_count cnt,
                                         r_status := ''completed'',
                                         r_finished_at := Some (clock w6),
                                         r_duration_seconds :=
                                           Some (py_int (clock w6 - r_started_at run1))\<rparr>
                        in and_then (db_call env) (\<lambda>u4 w7. (Inr (Checked, run2), w7))
                             (put_run run2 w6)) w5) w3)
           (put_run run1 w2)) w1) w"

text \<open>
  The whole body of the \<open>try\<close>: the early return releases the flag itself; after the
  checks the webhooks are sent and the run is returned.
\<close>

definition run_body ::
  "env \<Rightarrow> monitor_run \<Rightarrow> int list option \<Rightarrow> int list option \<Rightarrow> world
     \<Rightarrow> (exn + monitor_run) \<times> world" where
  "run_body env run target_ids zone_ids w =
     (case run_checks env run target_ids zone_ids w of
        (Inl e, w1) \<Rightarrow> (Inl e, w1)
      | (Inr (EmptyScope, run1), w1) \<Rightarrow> (Inr run1, release w1)
      | (Inr (Checked, run1), w1) \<Rightarrow>
          (case send_webhooks env run1 (w1\<lparr>events := events w1 @ [Dispatch (r_id run1)]\<rparr>) of
             (Inl e, w2) \<Rightarrow> (Inl e, w2)
           | (Inr u, w2) \<Rightarrow> (Inr run1, w2)))"

definition new_run_id :: "world \<Rightarrow> int" where
  "new_run_id w = fold max (map r_id (db_monitor_runs (store w))) 0 + 1"

text \<open>
  The guard, the creation of the run (outside the \<open>try\<close>: a failing flush leaves the flag
  set), then the body with its \<open>except\<close> and \<open>finally\<close> clauses.
\<close>

definition run_monitoring ::
  "env \<Rightarrow> string \<Rightarrow> int list option \<Rightarrow> int list option \<Rightarrow> world
     \<Rightarrow> (exn + monitor_run) \<times> world" where
  "run_monitoring env triggered_by target_ids zone_ids w =
     (if is_running w then (Inl (RuntimeError ''Monitoring is already running''), w)
      else
        (let w1 = w\<lparr>is_running := True\<rparr>;
             run = \<lparr>r_id = new_run_id w1, r_triggered_by = triggered_by,
                    r_status = ''running'', r_error_message = None,
                    r_total_targets = 0, r_total_zones = 0, r_total_checks = 0,
                    r_listed_count = 0, r_blocked_count = 0, r_error_count = 0,
                    r_started_at = clock w1, r_finished_at = None,
                    r_duration_seconds = None\<rparr>
         in case db_call env (put_run run w1) of
              (Inl e, w2) \<Rightarrow> (Inl e, w2)
            | (Inr u, w2) \<Rightarrow>
                (case run_body env run target_ids zone_ids w2 of
                   (Inr run1, w3) \<Rightarrow> (Inr run1, release w3)
                 | (Inl e, w3) \<Rightarrow>
                     (let w4 = update_run (r_id run)
                                 (\<lambda>r. r\<lparr>r_status := ''failed'',
                                        r_finished_at := Some (clock w3),
                                        r_duration_seconds :=
                                          Some (py_int (clock w3 - r_started_at r)),
                                        r_error_message := Some (str_exn e)\<rparr>) w3
                      in case db_call env w4 of
                           (Inl e2, w5) \<Rightarrow> (Inl e2, release w5)
                         | (Inr u2, w5) \<Rightarrow> (Inl e, release w5)))))"

section \<open>Notions used in the statements, and a small installation\<close>

text \<open>The stored rows of one (target, zone) pair, in the order of the table.\<close>

definition pair_rows :: "int \<Rightarrow> int \<Rightarrow> check_result_row list \<Rightarrow> check_result_row list" where
  "pair_rows tid zid rows = filter (\<lambda>r. cr_target_id r = tid \<and> cr_zone_id r = zid) rows"

text \<open>
  One target, one zone that lists it, one stored row of an earlier run, a webhook that
  answers, and a storage that does not fail.
\<close>

definition example_env :: env where
  "example_env =
     \<lparr>resolve = (\<lambda>k q rr. if q = ''4.3.2.1.bl.example.org'' then Answer [''127.0.0.2'']
                            else NXDOMAIN),
      max_requests = 10, cache_ttl = 3600, cache_maxsize = 10000,
      spamhaus_zones = [''zen.spamhaus.org''],
      storage_fault = (\<lambda>k. False), webhook_url = ''http://hooks.example.org/alerts'',
      webhook_post = (\<lambda>run pending. None)\<rparr>"

definition example_target :: target_row where
  "example_target = \<lparr>t_id = 1, t_target = ''1.2.3.4'', t_enabled = True\<rparr>"

definition example_zone :: zone_row where
  "example_zone = \<lparr>z_id = 1, z_zone = ''bl.example.org'', z_enabled = True\<rparr>"

definition example_row :: check_result_row where
  "example_row = \<lparr>cr_target_id = 1, cr_zone_id = 1, cr_status = ''listed'',
                   cr_a_records = Some [''127.0.0.2''], cr_error_reason = None,
                   cr_last_seen = 5, cr_last_checked = 5, cr_run_id = Some 1\<rparr>"

definition example_world :: world where
  "example_world =
     \<lparr>clock = 10, requests = (\<lambda>z. []), cache = [], resolver_calls = 0,
      is_running = False,
      store = \<lparr>db_targets = [example_target], db_zones = [example_zone],
               db_check_results = [example_row], db_monitor_runs = [], db_alerts = []\<rparr>,
      db_calls = 0, events = []\<rparr>"

definition running_world :: world where
  "running_world = example_world\<lparr>is_running := True\<rparr>"

text \<open>A resolver that always times out, and one that answers for a Spamhaus zone.\<close>

definition timeout_env :: env where
  "timeout_env = example_env\<lparr>resolve := (\<lambda>k q rr. Timeout)\<rparr>"

definition spamhaus_env :: env where
  "spamhaus_env =
     example_env\<lparr>resolve := (\<lambda>k q rr. if q = ''8.7.6.5.zen.spamhaus.org''
                                         then Answer [''127.255.255.10''] else NXDOMAIN)\<rparr>"

text \<open>No task of the gather of \<open>check_target\<close> ended with an exception.\<close>

definition no_zone_check_raises ::
  "'e checker_env_scheme \<Rightarrow> string \<Rightarrow> bool \<Rightarrow> string list \<Rightarrow> 's checker_state_scheme \<Rightarrow> bool" where
  "no_zone_check_raises env target include_txt zs st =
     list_all (\<lambda>r. case r of Inl e \<Rightarrow> False | Inr p \<Rightarrow> True)
       (fst (gather_zone_checks env target include_txt zs st))"

text \<open>A resolver that fails with an exception of another kind on one zone.\<close>

definition raising_env :: env where
  "raising_env =
     example_env\<lparr>resolve := (\<lambda>k q rr.
        if q = ''4.3.2.1.bad.example.org'' then Raises (OtherError ''connection lost'')
        else if q = ''4.3.2.1.bl.example.org'' then Answer [''127.0.0.2'']
        else NXDOMAIN)\<rparr>"

text \<open>The number of zones counted in the buckets, and the closed set of statuses.\<close>

definition bucket_total :: "buckets \<Rightarrow> nat" where
  "bucket_total b =
     length (b_listed b) + length (b_blocked b) + length (b_errors b) + b_not_listed_count b"

definition four_status :: "check_result \<Rightarrow> bool" where
  "four_status r = (res_status r = ''listed'' \<or> res_status r = ''not_listed''
         \<or> res_status r = ''blocked'' \<or> res_status r = ''error'')"

text \<open>The link that the cache holds for a lookup, if any.\<close>

definition cache_entry :: "string \<Rightarrow> string \<Rightarrow> string \<Rightarrow> 's checker_state_scheme
    \<Rightarrow> (string \<times> cache_value \<times> time) option" where
  "cache_entry target zone rrtype st =
     find (\<lambda>(k, v, e). k = make_cache_key target zone rrtype) (cache st)"

text \<open>A resolver whose first answer is a listing and that knows no name afterwards.\<close>

definition flapping_env :: env where
  "flapping_env =
     example_env\<lparr>resolve := (\<lambda>k q rr. if k = 0 then Answer [''127.0.0.2''] else NXDOMAIN)\<rparr>"

text \<open>
  Callers of \<open>acquire\<close> for one zone, given by their arrival times. The lock admits one
  at a time: a caller starts when it has arrived and the caller before it has returned.
  The result is the list of the times at which the calls return, the grants.
\<close>

fun run_acquires ::
  "'e checker_env_scheme \<Rightarrow> string \<Rightarrow> time list \<Rightarrow> 's checker_state_scheme \<Rightarrow> time list" where
  "run_acquires env zone [] st = []"
| "run_acquires env zone (arrival # rest) st =
     (case acquire env zone (st\<lparr>clock := max arrival (clock st)\<rparr>) of
        (Inl e, st1) \<Rightarrow> []
      | (Inr u, st1) \<Rightarrow> clock st1 # run_acquires env zone rest st1)"

text \<open>The number of grants in the second that starts at \<open>w\<close>.\<close>

definition grants_in_window :: "time list \<Rightarrow> time \<Rightarrow> nat" where
  "grants_in_window grants w = length (filter (\<lambda>t. w \<le> t \<and> t < w + 1) grants)"

text \<open>A limiter of one request per second and zone.\<close>

definition limit_one_env :: env where
  "limit_one_env = example_env\<lparr>max_requests := 1\<rparr>"

text \<open>
  One call of \<open>_save_check_result\<close> of the result loop: the target, the zone and the
  status that is stored for the pair.
\<close>

type_synonym saved = "target_row \<times> zone_row \<times> string"

text \<open>The stored status of a pair: that of its first row, the one an upsert rewrites.\<close>

definition stored_status :: "world \<Rightarrow> int \<times> int \<Rightarrow> string option" where
  "stored_status w p =
     map_option cr_status
       (find (\<lambda>r. cr_target_id r = fst p \<and> cr_zone_id r = snd p) (db_check_results (store w)))"

text \<open>The stored statuses after a sequence of saves: each one overwrites its pair.\<close>

definition apply_saved :: "saved list \<Rightarrow> (int \<times> int \<Rightarrow> string option) \<Rightarrow> (int \<times> int \<Rightarrow> string option)" where
  "apply_saved ps m = foldl (\<lambda>m (t, z, s). m((t_id t, z_id z) \<mapsto> s)) m ps"

text \<open>
  The saves that the loop makes for one target result, in its order: the listed entries,
  the blocked entries and the errors whose zone is in scope.
\<close>

definition saved_of_result :: "(string \<Rightarrow> zone_row option) \<Rightarrow> target_row \<Rightarrow> target_result \<Rightarrow> saved list" where
  "saved_of_result zone_map t r =
     map (\<lambda>z. (t, z, ''listed'')) (List.map_filter (\<lambda>e. zone_map (le_zone e)) (tr_listed r))
     @ map (\<lambda>z. (t, z, ''blocked'')) (List.map_filter (\<lambda>e. zone_map (be_zone e)) (tr_blocked r))
     @ map (\<lambda>z. (t, z, ''error'')) (List.map_filter (\<lambda>e. zone_map (ee_zone e)) (tr_errors r))"

definition saved_pairs ::
  "(string \<Rightarrow> target_row option) \<Rightarrow> (string \<Rightarrow> zone_row option) \<Rightarrow> target_result list \<Rightarrow> saved list" where
  "saved_pairs target_map zone_map results =
     concat (map (\<lambda>r. case target_map (tr_target r) of
                          None \<Rightarrow> []
                        | Some t \<Rightarrow> saved_of_result zone_map t r) results)"

text \<open>
  The condition of the claim for an alert: the new status is \<open>listed\<close> or
  \<open>blocked\<close> and is not the status of the snapshot for the pair (which is absent
  when the pair has no row).
\<close>

definition alert_expected :: "(int \<times> int \<Rightarrow> string option) \<Rightarrow> saved \<Rightarrow> bool" where
  "alert_expected previous_statuses p =
     (case p of (t, z, s) \<Rightarrow>
        (s = ''listed'' \<or> s = ''blocked'') \<and> previous_statuses (t_id t, z_id z) \<noteq> Some s)"

text \<open>The alert that belongs to a save: type, target, zone, old and new status.\<close>

definition alert_of :: "(int \<times> int \<Rightarrow> string option) \<Rightarrow> saved
    \<Rightarrow> string \<times> int option \<times> string \<times> string option \<times> string" where
  "alert_of previous_statuses p =
     (case p of (t, z, s) \<Rightarrow>
        (if s = ''listed'' then ''newly_listed'' else ''blocked'',
         Some (t_id t), z_zone z, previous_statuses (t_id t, z_id z), s))"

definition alert_key :: "alert_row \<Rightarrow> string \<times> int option \<times> string \<times> string option \<times> string" where
  "alert_key a = (a_alert_type a, a_target_id a, a_zone a, a_old_status a, a_new_status a)"

text \<open>The alerts added between two states, when the alerts of the first are kept.\<close>

definition new_alerts :: "world \<Rightarrow> world \<Rightarrow> alert_row list" where
  "new_alerts w w' = drop (length (db_alerts (store w))) (db_alerts (store w'))"

definition alerts_extend :: "world \<Rightarrow> world \<Rightarrow> bool" where
  "alerts_extend w w' = (take (length (db_alerts (store w))) (db_alerts (store w')) = db_alerts (store w))"

text \<open>A second zone and a result that lists the target on both.\<close>

definition second_zone :: zone_row where
  "second_zone = \<lparr>z_id = 2, z_zone = ''dnsbl.example.net'', z_enabled = True\<rparr>"

definition example_result :: target_result where
  "example_result =
     \<lparr>tr_target = ''1.2.3.4'', tr_target_type = ''ip'',
      tr_listed = [\<lparr>le_zone = ''bl.example.org'', le_a = [''127.0.0.2''], le_txt = []\<rparr>,
                   \<lparr>le_zone = ''dnsbl.example.net'', le_a = [''127.0.0.4''], le_txt = []\<rparr>],
      tr_blocked = [], tr_errors = [], tr_not_listed_zones_count = 0\<rparr>"

(*DEFS-END*)

section \<open>Properties\<close>

lemmas example_defs = example_env_def example_world_def example_target_def example_zone_def
  example_row_def

subsection \<open>Storage helpers\<close>

lemma filter_update_first_same:
  "(\<And>x. P x \<Longrightarrow> P (f x)) \<Longrightarrow>
   filter P (update_first P f xs) = (case filter P xs of [] \<Rightarrow> [] | y # ys \<Rightarrow> f y # ys)"
  by (induction xs) auto

lemma filter_update_first_other:
  "(\<And>x. P x \<Longrightarrow> \<not> Q x \<and> \<not> Q (f x)) \<Longrightarrow> filter Q (update_first P f xs) = filter Q xs"
  by (induction xs) auto

lemma length_update_first: "length (update_first P f xs) = length xs"
  by (induction xs) auto

lemma find_filter_hd: "find P xs = Some x \<Longrightarrow> \<exists>ys. filter P xs = x # ys"
  by (induction xs) (auto split: if_splits)

lemma find_None_filter: "find P xs = None \<Longrightarrow> filter P xs = []"
  by (induction xs) (auto split: if_splits)

lemma db_call_clock: "clock (snd (db_call env w)) = clock w"
  by (simp add: db_call_def Let_def)

lemma db_call_store: "store (snd (db_call env w)) = store w"
  by (simp add: db_call_def Let_def)

subsection \<open>The guard of run_monitoring\<close>

text \<open>
  Claim C9. A call of \<open>run_monitoring\<close> made while the running flag is set raises the
  error "Monitoring is already running" at once and leaves the whole state as it was: no
  run record is created, and the record of the run in progress is not touched.
\<close>

theorem run_monitoring_rejects_second_run:
  "is_running w \<Longrightarrow>
   run_monitoring env triggered_by target_ids zone_ids w =
     (Inl (RuntimeError ''Monitoring is already running''), w)"
  by (simp add: run_monitoring_def)

theorem run_monitoring_rejects_second_run_witness:
  "is_running running_world \<and>
   run_monitoring example_env ''api'' None None running_world =
     (Inl (RuntimeError ''Monitoring is already running''), running_world)"
  using run_monitoring_rejects_second_run [of running_world example_env "''api''" None None]
  by (simp add: running_world_def)

subsection \<open>The upsert of save_check_result\<close>

text \<open>
  Claim C8. When \<open>_save_check_result\<close> returns, a pair that had stored rows has its first
  row rewritten in place and no row added: the new status and records, \<open>last_checked\<close>
  at the time of the call, and \<open>last_seen\<close> moved to that time only when the saved status
  is not \<open>not_listed\<close>. A pair without a row gets exactly one, the rows of every other
  pair are as before, and so a store with at most one row for each pair stays so.
\<close>

theorem save_check_result_upsert:
  assumes ok: "fst (save_check_result env target zone status a_records run_id error_reason w)
                 = Inr ()"
  defines "w' \<equiv> snd (save_check_result env target zone status a_records run_id error_reason w)"
  defines "rows \<equiv> db_check_results (store w)"
  defines "rows' \<equiv> db_check_results (store w')"
  shows "(\<forall>old olds. pair_rows (t_id target) (z_id zone) rows = old # olds \<longrightarrow>
            length rows' = length rows \<and>
            pair_rows (t_id target) (z_id zone) rows' =
              old\<lparr>cr_status := status,
                   cr_a_records := (if a_records \<noteq> [] then Some a_records else None),
                   cr_last_checked := clock w,
                   cr_last_seen := (if status \<noteq> ''not_listed'' then clock w
                                    else cr_last_seen old),
                   cr_error_reason := error_reason,
                   cr_run_id := Some run_id\<rparr> # olds)
       \<and> (pair_rows (t_id target) (z_id zone) rows = [] \<longrightarrow>
            length (pair_rows (t_id target) (z_id zone) rows') = 1)
       \<and> (\<forall>tid zid. (tid, zid) \<noteq> (t_id target, z_id zone) \<longrightarrow>
            pair_rows tid zid rows' = pair_rows tid zid rows)
       \<and> ((\<forall>tid zid. length (pair_rows tid zid rows) \<le> 1) \<longrightarrow>
            (\<forall>tid zid. length (pair_rows tid zid rows') \<le> 1))"
proof -
  let ?P = "\<lambda>r. cr_target_id r = t_id target \<and> cr_zone_id r = z_id zone"
  let ?dumped = "if a_records \<noteq> [] then Some a_records else None"
  obtain w1 where c: "db_call env w = (Inr (), w1)"
    using ok by (auto simp: save_check_result_def split: prod.splits sum.splits)
  have w1: "clock w1 = clock w" "store w1 = store w"
    using db_call_clock [of env w] db_call_store [of env w] c by simp_all
  have other: "\<forall>tid zid. (tid, zid) \<noteq> (t_id target, z_id zone) \<longrightarrow>
                 pair_rows tid zid rows' = pair_rows tid zid rows"
   and same: "(\<forall>old olds. pair_rows (t_id target) (z_id zone) rows = old # olds \<longrightarrow>
            length rows' = length rows \<and>
            pair_rows (t_id target) (z_id zone) rows' =
              old\<lparr>cr_status := status, cr_a_records := ?dumped, cr_last_checked := clock w,
                   cr_last_seen := (if status \<noteq> ''not_listed'' then clock w
                                    else cr_last_seen old),
                   cr_error_reason := error_reason, cr_run_id := Some run_id\<rparr> # olds)"
   and fresh: "pair_rows (t_id target) (z_id zone) rows = [] \<longrightarrow>
            length (pair_rows (t_id target) (z_id zone) rows') = 1"
  proof (atomize (full), cases "find ?P rows")
    case None
    then have e: "filter ?P rows = []" by (rule find_None_filter)
    have r': "rows' = rows @ [\<lparr>cr_target_id = t_id target, cr_zone_id = z_id zone,
                cr_status = status, cr_a_records = ?dumped, cr_error_reason = error_reason,
                cr_last_seen = clock w, cr_last_checked = clock w,
                cr_run_id = Some run_id\<rparr>]"
      using None c w1 by (simp add: rows'_def w'_def rows_def save_check_result_def Let_def)
    show "(\<forall>tid zid. (tid, zid) \<noteq> (t_id target, z_id zone) \<longrightarrow>
                 pair_rows tid zid rows' = pair_rows tid zid rows) \<and>
          (\<forall>old olds. pair_rows (t_id target) (z_id zone) rows = old # olds \<longrightarrow>
            length rows' = length rows \<and>
            pair_rows (t_id target) (z_id zone) rows' =
              old\<lparr>cr_status := status, cr_a_records := ?dumped, cr_last_checked := clock w,
                   cr_last_seen := (if status \<noteq> ''not_listed'' then clock w
                                    else cr_last_seen old),
                   cr_error_reason := error_reason, cr_run_id := Some run_id\<rparr> # olds) \<and>
          (pair_rows (t_id target) (z_id zone) rows = [] \<longrightarrow>
            length (pair_rows (t_id target) (z_id zone) rows') = 1)"
      using e by (auto simp: r' pair_rows_def)
  next
    case (Some existing)
    then obtain ys where f: "filter ?P rows = existing # ys"
      using find_filter_hd by fastforce
    have r': "rows' = update_first ?P
                (\<lambda>r. r\<lparr>cr_status := status, cr_a_records := ?dumped,
                       cr_last_checked := clock w,
                       cr_last_seen := (if status \<noteq> ''not_listed'' then clock w
                                        else cr_last_seen r),
                       cr_error_reason := error_reason, cr_run_id := Some run_id\<rparr>) rows"
      using Some c w1
      by (simp add: rows'_def w'_def rows_def save_check_result_def Let_def cong: if_cong)
    have a: "pair_rows (t_id target) (z_id zone) rows' =
         existing\<lparr>cr_status := status, cr_a_records := ?dumped, cr_last_checked := clock w,
                   cr_last_seen := (if status \<noteq> ''not_listed'' then clock w
                                    else cr_last_seen existing),
                   cr_error_reason := error_reason, cr_run_id := Some run_id\<rparr> # ys"
      unfolding pair_rows_def r' by (subst filter_update_first_same) (simp_all add: f)
    have b: "\<And>tid zid. (tid, zid) \<noteq> (t_id target, z_id zone) \<Longrightarrow>
            pair_rows tid zid rows' = pair_rows tid zid rows"
      unfolding pair_rows_def r' by (rule filter_update_first_other) auto
    show "(\<forall>tid zid. (tid, zid) \<noteq> (t_id target, z_id zone) \<longrightarrow>
                 pair_rows tid zid rows' = pair_rows tid zid rows) \<and>
          (\<forall>old olds. pair_rows (t_id target) (z_id zone) rows = old # olds \<longrightarrow>
            length rows' = length rows \<and>
            pair_rows (t_id target) (z_id zone) rows' =
              old\<lparr>cr_status := status, cr_a_records := ?dumped, cr_last_checked := clock w,
                   cr_last_seen := (if status \<noteq> ''not_listed'' then clock w
                                    else cr_last_seen old),
                   cr_error_reason := error_reason, cr_run_id := Some run_id\<rparr> # olds) \<and>
          (pair_rows (t_id target) (z_id zone) rows = [] \<longrightarrow>
            length (pair_rows (t_id target) (z_id zone) rows') = 1)"
      using a b f by (simp add: pair_rows_def r' length_update_first)
  qed
  have inv: "(\<forall>tid zid. length (pair_rows tid zid rows) \<le> 1) \<longrightarrow>
             (\<forall>tid zid. length (pair_rows tid zid rows') \<le> 1)"
  proof (intro impI allI)
    fix tid zid
    assume h: "\<forall>tid zid. length (pair_rows tid zid rows) \<le> 1"
    show "length (pair_rows tid zid rows') \<le> 1"
    proof (cases "(tid, zid) = (t_id target, z_id zone)")
      case False
      then show ?thesis using other h by simp
    next
      case True
      then have t: "tid = t_id target" "zid = z_id zone" by simp_all
      show ?thesis
      proof (cases "pair_rows (t_id target) (z_id zone) rows")
        case Nil
        then show ?thesis using fresh t by simp
      next
        case (Cons old olds)
        moreover have "length (pair_rows (t_id target) (z_id zone) rows) \<le> 1" using h by blast
        ultimately show ?thesis using same t by simp
      qed
    qed
  qed
  show ?thesis using same fresh other inv by blast
qed

theorem save_check_result_upsert_witness:
  "fst (save_check_result example_env example_target example_zone ''not_listed'' [] 2 None
          example_world) = Inr ()
   \<and> pair_rows (t_id example_target) (z_id example_zone)
        (db_check_results (store example_world)) = [example_row]
   \<and> pair_rows (t_id example_target) (z_id example_zone)
        (db_check_results (store (snd (save_check_result example_env example_target
           example_zone ''not_listed'' [] 2 None example_world)))) =
       [example_row\<lparr>cr_status := ''not_listed'', cr_a_records := None, cr_last_checked := 10,
                     cr_last_seen := 5, cr_run_id := Some 2\<rparr>]"
proof -
  have ok: "fst (save_check_result example_env example_target example_zone ''not_listed'' [] 2
                   None example_world) = Inr ()"
    by (simp add: save_check_result_def db_call_def example_defs Let_def)
  have pr: "pair_rows (t_id example_target) (z_id example_zone)
        (db_check_results (store example_world)) = [example_row]"
    by (simp add: pair_rows_def example_defs)
  have c: "clock example_world = 10" "cr_last_seen example_row = 5"
    "cr_error_reason example_row = None"
    by (simp_all add: example_defs)
  show ?thesis
    using save_check_result_upsert [OF ok] pr ok c by simp
qed

subsection \<open>The classification of check_zone\<close>

lemma check_zone_after_query:
  assumes q: "query_dns env target zone ''A'' st = (Inr (a_status, a_records), st1)"
  shows "check_zone env target zone include_txt st =
     (if a_status = ''nxdomain'' \<or> a_status = ''noanswer'' then
            (Inr \<lparr>res_zone = zone, res_status = ''not_listed'', res_a_records = [],
                  res_txt_records = [], res_error_reason = None\<rparr>, st1)
          else if a_status = ''timeout'' \<or> a_status = ''error'' then
            (Inr \<lparr>res_zone = zone, res_status = ''error'', res_a_records = [],
                  res_txt_records = [], res_error_reason = Some a_status\<rparr>, st1)
          else if a_records = [] then
            (Inr \<lparr>res_zone = zone, res_status = ''not_listed'', res_a_records = [],
                  res_txt_records = [], res_error_reason = None\<rparr>, st1)
          else if zone \<in> set (spamhaus_zones env) \<and> list_ex is_spamhaus_blocked a_records then
            (Inr \<lparr>res_zone = zone, res_status = ''blocked'', res_a_records = a_records,
                  res_txt_records = [], res_error_reason = Some ''Blocked/limits''\<rparr>, st1)
          else if include_txt then
            (case query_dns env target zone ''TXT'' st1 of
               (Inl e, st2) \<Rightarrow> (Inl e, st2)
             | (Inr (txt_status, txt_records), st2) \<Rightarrow>
                 (Inr \<lparr>res_zone = zone, res_status = ''listed'', res_a_records = a_records,
                       res_txt_records = txt_records, res_error_reason = None\<rparr>, st2))
          else
            (Inr \<lparr>res_zone = zone, res_status = ''listed'', res_a_records = a_records,
                  res_txt_records = [], res_error_reason = None\<rparr>, st1))"
  unfolding check_zone_def q by simp

lemma check_zone_raises:
  "query_dns env target zone ''A'' st = (Inl e, st1) \<Longrightarrow>
   check_zone env target zone include_txt st = (Inl e, st1)"
  unfolding check_zone_def by simp


lemma status_in_Inr:
  "fst p = Inr r \<Longrightarrow> fst p = Inr r' \<Longrightarrow> res_status r' = s \<Longrightarrow> res_status r = s"
  by simp

lemma check_zone_status:
  assumes r: "fst (check_zone env target zone include_txt st) = Inr r"
  shows "res_status r = ''listed'' \<or> res_status r = ''not_listed''
         \<or> res_status r = ''blocked'' \<or> res_status r = ''error''"
proof (cases "query_dns env target zone ''A'' st")
  case (Pair x st1)
  show ?thesis
  proof (cases x)
    case (Inl e)
    with Pair r show ?thesis by (simp add: check_zone_raises)
  next
    case (Inr v)
    obtain a_status a_records where v: "v = (a_status, a_records)" by (cases v)
    have q: "query_dns env target zone ''A'' st = (Inr (a_status, a_records), st1)"
      using Pair Inr v by simp
    note u = check_zone_after_query [OF q, of include_txt]
    show ?thesis
    proof (cases "a_status = ''nxdomain'' \<or> a_status = ''noanswer''")
      case True
      have "fst (check_zone env target zone include_txt st) =
              Inr \<lparr>res_zone = zone, res_status = ''not_listed'', res_a_records = [],
                   res_txt_records = [], res_error_reason = None\<rparr>"
        unfolding u by (simp only: True if_True fst_conv simp_thms)
      from status_in_Inr [OF r this] show ?thesis by simp
    next
      case c1: False
      show ?thesis
      proof (cases "a_status = ''timeout'' \<or> a_status = ''error''")
        case True
        have "fst (check_zone env target zone include_txt st) =
                Inr \<lparr>res_zone = zone, res_status = ''error'', res_a_records = [],
                     res_txt_records = [], res_error_reason = Some a_status\<rparr>"
          unfolding u by (simp only: c1 True if_True if_False fst_conv simp_thms)
        from status_in_Inr [OF r this] show ?thesis by simp
      next
        case c2: False
        show ?thesis
        proof (cases "a_records = []")
          case True
          have "fst (check_zone env target zone include_txt st) =
                  Inr \<lparr>res_zone = zone, res_status = ''not_listed'', res_a_records = [],
                       res_txt_records = [], res_error_reason = None\<rparr>"
            unfolding u by (simp only: c1 c2 True if_True if_False fst_conv simp_thms)
          from status_in_Inr [OF r this] show ?thesis by simp
        next
          case c3: False
          show ?thesis
          proof (cases "zone \<in> set (spamhaus_zones env) \<and> list_ex is_spamhaus_blocked a_records")
            case True
            have "fst (check_zone env target zone include_txt st) =
                    Inr \<lparr>res_zone = zone, res_status = ''blocked'', res_a_records = a_records,
                         res_txt_records = [], res_error_reason = Some ''Blocked/limits''\<rparr>"
              unfolding u by (simp only: c1 c2 c3 True if_True if_False fst_conv simp_thms)
            from status_in_Inr [OF r this] show ?thesis by simp
          next
            case c4: False
            show ?thesis
            proof (cases include_txt)
              case False
              have "fst (check_zone env target zone include_txt st) =
                      Inr \<lparr>res_zone = zone, res_status = ''listed'', res_a_records = a_records,
                           res_txt_records = [], res_error_reason = None\<rparr>"
                unfolding u by (simp only: c1 c2 c3 c4 False if_True if_False fst_conv simp_thms)
              from status_in_Inr [OF r this] show ?thesis by simp
            next
              case True
              obtain y st2 where t: "query_dns env target zone ''TXT'' st1 = (y, st2)"
                by (cases "query_dns env target zone ''TXT'' st1")
              show ?thesis
              proof (cases y)
                case (Inl ex)
                have "fst (check_zone env target zone include_txt st) = Inl ex"
                  unfolding u by (simp only: c1 c2 c3 c4 True if_True if_False t Inl)  simp
                with r show ?thesis by simp
              next
                case (Inr tv)
                have "fst (check_zone env target zone include_txt st) =
                    Inr \<lparr>res_zone = zone, res_status = ''listed'', res_a_records = a_records,
                         res_txt_records = snd tv, res_error_reason = None\<rparr>"
                  unfolding u by (simp only: c1 c2 c3 c4 True if_True if_False t Inr) (cases tv, simp)
                from status_in_Inr [OF r this] show ?thesis by simp
              qed
            qed
          qed
        qed
      qed
    qed
  qed
qed


lemma acquire_resolver_calls: "resolver_calls (snd (acquire env zone st)) = resolver_calls st"
  by (simp add: acquire_def Let_def split: list.splits)

lemma get_cached_resolver_calls:
  "resolver_calls (snd (get_cached target zone rrtype st)) = resolver_calls st"
  by (simp add: get_cached_def Let_def split: prod.splits)

lemma cache_and_return_ok:
  "1 \<le> cache_maxsize env \<Longrightarrow> fst (cache_and_return env target zone rrtype v st) = Inr v"
  by (simp add: cache_and_return_def set_cache_def cache_set_def Let_def)

lemma query_dns_miss:
  assumes a: "fst (acquire env zone st) = Inr ()"
    and g: "fst (get_cached target zone rrtype (snd (acquire env zone st))) = None"
    and m: "1 \<le> cache_maxsize env"
  shows "fst (query_dns env target zone rrtype st) =
     (case resolve env (resolver_calls st) (build_dnsbl_query target zone) rrtype of
        Answer records \<Rightarrow> Inr (''success'', records)
      | NXDOMAIN \<Rightarrow> Inr (''nxdomain'', [])
      | NoAnswer \<Rightarrow> Inr (''noanswer'', [])
      | Timeout \<Rightarrow> Inr (''timeout'', [])
      | DNSException \<Rightarrow> Inr (''error'', [])
      | Raises e \<Rightarrow> Inl e)"
proof -
  obtain st1 where a1: "acquire env zone st = (Inr (), st1)"
    using a by (cases "acquire env zone st") auto
  obtain st2 where g1: "get_cached target zone rrtype st1 = (None, st2)"
    using g a1 by (cases "get_cached target zone rrtype st1") auto
  have rc: "resolver_calls st2 = resolver_calls st"
    using acquire_resolver_calls [of env zone st]
      get_cached_resolver_calls [of target zone rrtype st1] a1 g1
    by simp
  show ?thesis
    by (simp add: query_dns_def a1 g1 rc Let_def cache_and_return_ok [OF m]
        split: dns_outcome.splits)
qed

lemma check_zone_not_listed:
  assumes "query_dns env target zone ''A'' st = (Inr (a_status, a_records), st1)"
    and "a_status = ''nxdomain'' \<or> a_status = ''noanswer''
         \<or> (a_status = ''success'' \<and> a_records = [])"
  shows "check_zone env target zone include_txt st =
           (Inr \<lparr>res_zone = zone, res_status = ''not_listed'', res_a_records = [],
                 res_txt_records = [], res_error_reason = None\<rparr>, st1)"
  using assms(2) unfolding check_zone_after_query [OF assms(1)] by auto

lemma check_zone_error:
  assumes "query_dns env target zone ''A'' st = (Inr (a_status, a_records), st1)"
    and "a_status = ''timeout'' \<or> a_status = ''error''"
  shows "check_zone env target zone include_txt st =
           (Inr \<lparr>res_zone = zone, res_status = ''error'', res_a_records = [],
                 res_txt_records = [], res_error_reason = Some a_status\<rparr>, st1)"
  using assms(2) unfolding check_zone_after_query [OF assms(1)] by auto


text \<open>
  Claim C7. Whatever \<open>_query_dns\<close> returns for the A lookup, \<open>check_zone\<close> maps it
  as follows: \<open>nxdomain\<close>, \<open>noanswer\<close> and a success without records give
  \<open>not_listed\<close> with no addresses and no reason; \<open>timeout\<close> and \<open>error\<close> give
  \<open>error\<close> with that word as the reason. When the lookup reaches the resolver, these
  are the answers "no such name", "no matching record", an empty answer, a timeout and
  any other DNS exception. Every result that \<open>check_zone\<close> returns has one of the four
  statuses.
\<close>

theorem check_zone_outcomes:
  "(\<forall>a_status a_records st1.
      query_dns env target zone ''A'' st = (Inr (a_status, a_records), st1) \<longrightarrow>
        (a_status = ''nxdomain'' \<or> a_status = ''noanswer''
           \<or> (a_status = ''success'' \<and> a_records = []) \<longrightarrow>
           check_zone env target zone include_txt st =
             (Inr \<lparr>res_zone = zone, res_status = ''not_listed'', res_a_records = [],
                   res_txt_records = [], res_error_reason = None\<rparr>, st1))
      \<and> (a_status = ''timeout'' \<or> a_status = ''error'' \<longrightarrow>
           check_zone env target zone include_txt st =
             (Inr \<lparr>res_zone = zone, res_status = ''error'', res_a_records = [],
                   res_txt_records = [], res_error_reason = Some a_status\<rparr>, st1)))
   \<and> (fst (acquire env zone st) = Inr ()
        \<and> fst (get_cached target zone ''A'' (snd (acquire env zone st))) = None
        \<and> 1 \<le> cache_maxsize env \<longrightarrow>
        (resolve env (resolver_calls st) (build_dnsbl_query target zone) ''A'' = NXDOMAIN
           \<or> resolve env (resolver_calls st) (build_dnsbl_query target zone) ''A'' = NoAnswer
           \<or> resolve env (resolver_calls st) (build_dnsbl_query target zone) ''A'' = Answer []
           \<longrightarrow>
           fst (check_zone env target zone include_txt st) =
             Inr \<lparr>res_zone = zone, res_status = ''not_listed'', res_a_records = [],
                  res_txt_records = [], res_error_reason = None\<rparr>)
      \<and> (resolve env (resolver_calls st) (build_dnsbl_query target zone) ''A'' = Timeout \<longrightarrow>
           fst (check_zone env target zone include_txt st) =
             Inr \<lparr>res_zone = zone, res_status = ''error'', res_a_records = [],
                  res_txt_records = [], res_error_reason = Some ''timeout''\<rparr>)
      \<and> (resolve env (resolver_calls st) (build_dnsbl_query target zone) ''A'' = DNSException
           \<longrightarrow>
           fst (check_zone env target zone include_txt st) =
             Inr \<lparr>res_zone = zone, res_status = ''error'', res_a_records = [],
                  res_txt_records = [], res_error_reason = Some ''error''\<rparr>))
   \<and> (\<forall>r. fst (check_zone env target zone include_txt st) = Inr r \<longrightarrow>
         res_status r = ''listed'' \<or> res_status r = ''not_listed''
         \<or> res_status r = ''blocked'' \<or> res_status r = ''error'')"
proof (intro conjI allI impI)
  fix a_status a_records st1
  assume q: "query_dns env target zone ''A'' st = (Inr (a_status, a_records), st1)"
  { assume "a_status = ''nxdomain'' \<or> a_status = ''noanswer''
           \<or> (a_status = ''success'' \<and> a_records = [])"
    then show "check_zone env target zone include_txt st =
             (Inr \<lparr>res_zone = zone, res_status = ''not_listed'', res_a_records = [],
                   res_txt_records = [], res_error_reason = None\<rparr>, st1)"
      by (rule check_zone_not_listed [OF q]) }
  { assume "a_status = ''timeout'' \<or> a_status = ''error''"
    then show "check_zone env target zone include_txt st =
             (Inr \<lparr>res_zone = zone, res_status = ''error'', res_a_records = [],
                   res_txt_records = [], res_error_reason = Some a_status\<rparr>, st1)"
      by (rule check_zone_error [OF q]) }
next
  fix r
  assume "fst (check_zone env target zone include_txt st) = Inr r"
  then show "res_status r = ''listed'' \<or> res_status r = ''not_listed''
         \<or> res_status r = ''blocked'' \<or> res_status r = ''error''"
    by (rule check_zone_status)
next
  let ?answer = "resolve env (resolver_calls st) (build_dnsbl_query target zone) ''A''"
  assume h: "fst (acquire env zone st) = Inr ()
        \<and> fst (get_cached target zone ''A'' (snd (acquire env zone st))) = None
        \<and> 1 \<le> cache_maxsize env"
  obtain x st1 where p: "query_dns env target zone ''A'' st = (x, st1)"
    by (cases "query_dns env target zone ''A'' st")
  have m: "x = (case ?answer of
        Answer records \<Rightarrow> Inr (''success'', records)
      | NXDOMAIN \<Rightarrow> Inr (''nxdomain'', [])
      | NoAnswer \<Rightarrow> Inr (''noanswer'', [])
      | Timeout \<Rightarrow> Inr (''timeout'', [])
      | DNSException \<Rightarrow> Inr (''error'', [])
      | Raises e \<Rightarrow> Inl e)"
    using query_dns_miss [of env zone st target "''A''"] h p by simp
  { assume o: "?answer = NXDOMAIN \<or> ?answer = NoAnswer \<or> ?answer = Answer []"
    have "\<exists>a_status. query_dns env target zone ''A'' st = (Inr (a_status, []), st1)
           \<and> (a_status = ''nxdomain'' \<or> a_status = ''noanswer''
                \<or> (a_status = ''success'' \<and> [] = ([] :: string list)))"
      using o
    proof (elim disjE)
      assume "?answer = NXDOMAIN"
      then have "query_dns env target zone ''A'' st = (Inr (''nxdomain'', []), st1)"
        using m p by simp
      then show ?thesis by (intro exI [of _ "''nxdomain''"]) simp
    next
      assume "?answer = NoAnswer"
      then have "query_dns env target zone ''A'' st = (Inr (''noanswer'', []), st1)"
        using m p by simp
      then show ?thesis by (intro exI [of _ "''noanswer''"]) simp
    next
      assume "?answer = Answer []"
      then have "query_dns env target zone ''A'' st = (Inr (''success'', []), st1)"
        using m p by simp
      then show ?thesis by (intro exI [of _ "''success''"]) simp
    qed
    then obtain a_status where
      q: "query_dns env target zone ''A'' st = (Inr (a_status, []), st1)"
      and s: "a_status = ''nxdomain'' \<or> a_status = ''noanswer''
                \<or> (a_status = ''success'' \<and> [] = ([] :: string list))"
      by (elim exE conjE)
    from check_zone_not_listed [OF q s, of include_txt]
    show "fst (check_zone env target zone include_txt st) =
             Inr \<lparr>res_zone = zone, res_status = ''not_listed'', res_a_records = [],
                  res_txt_records = [], res_error_reason = None\<rparr>"
      by (simp only: fst_conv) }
  { assume "?answer = Timeout"
    then have q: "query_dns env target zone ''A'' st = (Inr (''timeout'', []), st1)"
      using m p by simp
    have s: "''timeout'' = ''timeout'' \<or> ''timeout'' = ''error''" by (rule disjI1) (rule refl)
    from check_zone_error [OF q s, of include_txt]
    show "fst (check_zone env target zone include_txt st) =
             Inr \<lparr>res_zone = zone, res_status = ''error'', res_a_records = [],
                  res_txt_records = [], res_error_reason = Some ''timeout''\<rparr>"
      by (simp only: fst_conv) }
  { assume "?answer = DNSException"
    then have q: "query_dns env target zone ''A'' st = (Inr (''error'', []), st1)"
      using m p by simp
    have s: "''error'' = ''timeout'' \<or> ''error'' = ''error''" by (rule disjI2) (rule refl)
    from check_zone_error [OF q s, of include_txt]
    show "fst (check_zone env target zone include_txt st) =
             Inr \<lparr>res_zone = zone, res_status = ''error'', res_a_records = [],
                  res_txt_records = [], res_error_reason = Some ''error''\<rparr>"
      by (simp only: fst_conv) }
qed


lemma ipv4_9999: "ipv4_address ''9.9.9.9'' = Some 0x09090909"
  by (simp add: ipv4_address_def parse_octet_def is_digit_def digit_val_def)

lemma query_9999: "build_dnsbl_query ''9.9.9.9'' ''bl.example.org'' = ''9.9.9.9.bl.example.org''"
  by (simp add: build_dnsbl_query_def ipv4_9999 ipv4_octets_def octet_str_def digit_char_def)

lemma ipv4_5678: "ipv4_address ''5.6.7.8'' = Some 0x05060708"
  by (simp add: ipv4_address_def parse_octet_def is_digit_def digit_val_def)

lemma query_5678:
  "build_dnsbl_query ''5.6.7.8'' ''zen.spamhaus.org'' = ''8.7.6.5.zen.spamhaus.org''"
  by (simp add: build_dnsbl_query_def ipv4_5678 ipv4_octets_def octet_str_def digit_char_def)

lemma blocked_address: "is_spamhaus_blocked ''127.255.255.10''"
  by (simp add: is_spamhaus_blocked_def ipv4_address_def parse_octet_def is_digit_def
      digit_val_def)

lemma example_acquire:
  "fst (acquire (example_env\<lparr>resolve := f\<rparr>) zone example_world) = Inr ()"
  by (simp add: acquire_def example_env_def example_world_def Let_def)

lemma example_cache_miss:
  "fst (get_cached target zone rrtype
          (snd (acquire (example_env\<lparr>resolve := f\<rparr>) zone example_world))) = None"
  by (simp add: get_cached_def cache_get_def acquire_def example_env_def example_world_def
      Let_def)

theorem check_zone_outcomes_witness:
  "(fst (acquire timeout_env ''bl.example.org'' example_world) = Inr ()
    \<and> fst (get_cached ''9.9.9.9'' ''bl.example.org'' ''A''
              (snd (acquire timeout_env ''bl.example.org'' example_world))) = None
    \<and> 1 \<le> cache_maxsize timeout_env)
   \<and> resolve timeout_env (resolver_calls example_world)
        (build_dnsbl_query ''9.9.9.9'' ''bl.example.org'') ''A'' = Timeout
   \<and> fst (check_zone timeout_env ''9.9.9.9'' ''bl.example.org'' False example_world) =
       Inr \<lparr>res_zone = ''bl.example.org'', res_status = ''error'', res_a_records = [],
            res_txt_records = [], res_error_reason = Some ''timeout''\<rparr>"
proof -
  have h: "fst (acquire timeout_env ''bl.example.org'' example_world) = Inr ()
    \<and> fst (get_cached ''9.9.9.9'' ''bl.example.org'' ''A''
              (snd (acquire timeout_env ''bl.example.org'' example_world))) = None
    \<and> 1 \<le> cache_maxsize timeout_env"
    unfolding timeout_env_def
    by (intro conjI example_acquire example_cache_miss) (simp add: example_env_def)
  have o: "resolve timeout_env (resolver_calls example_world)
        (build_dnsbl_query ''9.9.9.9'' ''bl.example.org'') ''A'' = Timeout"
    by (simp add: timeout_env_def)
  note t = check_zone_outcomes [of timeout_env "''9.9.9.9''" "''bl.example.org''"
      example_world False]
  note b = mp [OF conjunct1 [OF conjunct2 [OF t]] h]
  have c: "fst (check_zone timeout_env ''9.9.9.9'' ''bl.example.org'' False example_world) =
       Inr \<lparr>res_zone = ''bl.example.org'', res_status = ''error'', res_a_records = [],
            res_txt_records = [], res_error_reason = Some ''timeout''\<rparr>"
    by (rule mp [OF conjunct1 [OF conjunct2 [OF b]] o])
  from h o c show ?thesis by (intro conjI) (elim conjE, assumption)+
qed

text \<open>
  Claim C4, amended. For a zone of \<open>spamhaus_zones\<close>, a successful lookup with at
  least one record, one of them in 127.255.255.0/24, makes \<open>check_zone\<close> return the
  status \<open>blocked\<close> with the returned addresses, no text records, and the reason
  \<open>Blocked/limits\<close>, with a capital B.
\<close>

theorem check_zone_spamhaus_blocked:
  assumes z: "zone \<in> set (spamhaus_zones env)"
    and q: "query_dns env target zone ''A'' st = (Inr (''success'', a_records), st1)"
    and n: "a_records \<noteq> []"
    and b: "\<exists>a \<in> set a_records. is_spamhaus_blocked a"
  shows "check_zone env target zone include_txt st =
           (Inr \<lparr>res_zone = zone, res_status = ''blocked'', res_a_records = a_records,
                 res_txt_records = [], res_error_reason = Some ''Blocked/limits''\<rparr>, st1)"
proof -
  have s1: "\<not> (''success'' = ''nxdomain'' \<or> ''success'' = ''noanswer'')" by simp
  have s2: "\<not> (''success'' = ''timeout'' \<or> ''success'' = ''error'')" by simp
  have s4: "zone \<in> set (spamhaus_zones env) \<and> list_ex is_spamhaus_blocked a_records"
    using z b by (simp add: list_ex_iff)
  show ?thesis
    unfolding check_zone_after_query [OF q]
    by (simp only: s1 s2 n s4 if_True if_False simp_thms)
qed

lemma spamhaus_query:
  "query_dns spamhaus_env ''5.6.7.8'' ''zen.spamhaus.org'' ''A'' example_world =
     (Inr (''success'', [''127.255.255.10'']),
      snd (query_dns spamhaus_env ''5.6.7.8'' ''zen.spamhaus.org'' ''A'' example_world))"
proof -
  have "fst (query_dns spamhaus_env ''5.6.7.8'' ''zen.spamhaus.org'' ''A'' example_world) =
          Inr (''success'', [''127.255.255.10''])"
    unfolding spamhaus_env_def
    by (subst query_dns_miss [OF example_acquire example_cache_miss])
       (simp_all add: query_5678 example_env_def)
  then show ?thesis by (simp add: prod_eq_iff)
qed

theorem check_zone_spamhaus_blocked_witness:
  "''zen.spamhaus.org'' \<in> set (spamhaus_zones spamhaus_env)
   \<and> fst (query_dns spamhaus_env ''5.6.7.8'' ''zen.spamhaus.org'' ''A'' example_world) =
       Inr (''success'', [''127.255.255.10''])
   \<and> (\<exists>a \<in> set [''127.255.255.10'']. is_spamhaus_blocked a)
   \<and> fst (check_zone spamhaus_env ''5.6.7.8'' ''zen.spamhaus.org'' False example_world) =
       Inr \<lparr>res_zone = ''zen.spamhaus.org'', res_status = ''blocked'',
            res_a_records = [''127.255.255.10''], res_txt_records = [],
            res_error_reason = Some ''Blocked/limits''\<rparr>"
proof -
  have z: "''zen.spamhaus.org'' \<in> set (spamhaus_zones spamhaus_env)"
    by (simp add: spamhaus_env_def example_env_def)
  have b: "\<exists>a \<in> set [''127.255.255.10'']. is_spamhaus_blocked a"
    using blocked_address by simp
  have n: "[''127.255.255.10''] \<noteq> []" by simp
  from check_zone_spamhaus_blocked [OF z spamhaus_query n b, of False]
  have c: "fst (check_zone spamhaus_env ''5.6.7.8'' ''zen.spamhaus.org'' False example_world) =
       Inr \<lparr>res_zone = ''zen.spamhaus.org'', res_status = ''blocked'',
            res_a_records = [''127.255.255.10''], res_txt_records = [],
            res_error_reason = Some ''Blocked/limits''\<rparr>"
    by (simp only: fst_conv)
  have q: "fst (query_dns spamhaus_env ''5.6.7.8'' ''zen.spamhaus.org'' ''A'' example_world) =
       Inr (''success'', [''127.255.255.10''])"
    using spamhaus_query by (metis fst_conv)
  from z q b c show ?thesis by (intro conjI)
qed

text \<open>
  The reason is not the lower-case string of the claim: for 5.6.7.8 on zen.spamhaus.org
  answered with 127.255.255.10 the result is not the one with \<open>blocked/limits\<close>.
\<close>

theorem check_zone_reason_counterexample:
  "''zen.spamhaus.org'' \<in> set (spamhaus_zones spamhaus_env)
   \<and> fst (query_dns spamhaus_env ''5.6.7.8'' ''zen.spamhaus.org'' ''A'' example_world) =
       Inr (''success'', [''127.255.255.10''])
   \<and> is_spamhaus_blocked ''127.255.255.10''
   \<and> fst (check_zone spamhaus_env ''5.6.7.8'' ''zen.spamhaus.org'' False example_world) \<noteq>
       Inr \<lparr>res_zone = ''zen.spamhaus.org'', res_status = ''blocked'',
            res_a_records = [''127.255.255.10''], res_txt_records = [],
            res_error_reason = Some ''blocked/limits''\<rparr>"
proof -
  have z: "''zen.spamhaus.org'' \<in> set (spamhaus_zones spamhaus_env)"
    by (simp add: spamhaus_env_def example_env_def)
  have q: "fst (query_dns spamhaus_env ''5.6.7.8'' ''zen.spamhaus.org'' ''A'' example_world) =
       Inr (''success'', [''127.255.255.10''])"
    using spamhaus_query by (metis fst_conv)
  have c: "fst (check_zone spamhaus_env ''5.6.7.8'' ''zen.spamhaus.org'' False example_world) =
       Inr \<lparr>res_zone = ''zen.spamhaus.org'', res_status = ''blocked'',
            res_a_records = [''127.255.255.10''], res_txt_records = [],
            res_error_reason = Some ''Blocked/limits''\<rparr>"
    unfolding check_zone_after_query [OF spamhaus_query]
    by (simp add: blocked_address spamhaus_env_def example_env_def)
  have d: "fst (check_zone spamhaus_env ''5.6.7.8'' ''zen.spamhaus.org'' False example_world) \<noteq>
       Inr \<lparr>res_zone = ''zen.spamhaus.org'', res_status = ''blocked'',
            res_a_records = [''127.255.255.10''], res_txt_records = [],
            res_error_reason = Some ''blocked/limits''\<rparr>"
    unfolding c by simp
  from z q blocked_address d show ?thesis by (intro conjI)
qed

subsection \<open>The buckets of check_target\<close>

lemma gather_zone_checks_Cons:
  "fst (gather_zone_checks env target include_txt (zone # zs) st) =
     (case fst (check_zone env target zone include_txt st) of
        Inl e \<Rightarrow> Inl e | Inr result \<Rightarrow> Inr (zone, result))
     # fst (gather_zone_checks env target include_txt zs
              (snd (check_zone env target zone include_txt st)))"
  by (simp split: prod.splits)

lemma length_gather_zone_checks:
  "length (fst (gather_zone_checks env target include_txt zs st)) = length zs"
proof (induction zs arbitrary: st)
  case Nil
  show ?case by simp
next
  case (Cons zone zs)
  show ?case unfolding gather_zone_checks_Cons by (simp add: Cons)
qed

lemma gather_zone_checks_status:
  "Inr (z, r) \<in> set (fst (gather_zone_checks env target include_txt zs st)) \<Longrightarrow> four_status r"
proof (induction zs arbitrary: st)
  case Nil
  then show ?case by simp
next
  case (Cons zone zs)
  obtain x st1 where c: "check_zone env target zone include_txt st = (x, st1)"
    by (cases "check_zone env target zone include_txt st")
  obtain rs st2 where g: "gather_zone_checks env target include_txt zs st1 = (rs, st2)"
    by (cases "gather_zone_checks env target include_txt zs st1")
  from Cons.prems c g
  have "Inr (z, r) = (case x of Inl e \<Rightarrow> Inl e | Inr result \<Rightarrow> Inr (zone, result))
        \<or> Inr (z, r) \<in> set rs"
    by simp
  then show ?case
  proof
    assume "Inr (z, r) \<in> set rs"
    then show ?thesis using Cons.IH [of st1] g by simp
  next
    assume "Inr (z, r) = (case x of Inl e \<Rightarrow> Inl e | Inr result \<Rightarrow> Inr (zone, result))"
    then have "x = Inr r" by (cases x) simp_all
    then have "fst (check_zone env target zone include_txt st) = Inr r" using c by simp
    then show ?thesis unfolding four_status_def by (rule check_zone_status)
  qed
qed

lemma aggregate_one_total:
  assumes "four_status r"
  shows "bucket_total (aggregate_one z r b) = Suc (bucket_total b)"
proof -
  consider (l) "res_status r = ''listed''"
    | (b) "res_status r \<noteq> ''listed''" "res_status r = ''blocked''"
    | (e) "res_status r \<noteq> ''listed''" "res_status r \<noteq> ''blocked''" "res_status r = ''error''"
    | (n) "res_status r \<noteq> ''listed''" "res_status r \<noteq> ''blocked''" "res_status r \<noteq> ''error''"
          "res_status r = ''not_listed''"
    using assms unfolding four_status_def by fastforce
  then show ?thesis
  proof cases
    case l
    then show ?thesis by (simp only: aggregate_one_def if_True) (simp add: bucket_total_def)
  next
    case b
    then show ?thesis
      by (simp only: aggregate_one_def if_True if_False) (simp add: bucket_total_def)
  next
    case e
    then show ?thesis
      by (simp only: aggregate_one_def if_True if_False) (simp add: bucket_total_def)
  next
    case n
    then show ?thesis
      by (simp only: aggregate_one_def if_True if_False) (simp add: bucket_total_def)
  qed
qed

lemma aggregate_total:
  assumes "\<forall>x \<in> set rs. \<exists>z r. x = Inr (z, r) \<and> four_status r"
  shows "\<exists>b'. aggregate rs b = Inr b' \<and> bucket_total b' = bucket_total b + length rs"
  using assms
proof (induction rs arbitrary: b)
  case Nil
  then show ?case by simp
next
  case (Cons x rs)
  then obtain z r where x: "x = Inr (z, r)" and f: "four_status r" by auto
  from Cons.prems have "\<forall>x \<in> set rs. \<exists>z r. x = Inr (z, r) \<and> four_status r" by simp
  from Cons.IH [OF this, of "aggregate_one z r b"] obtain b'
    where "aggregate rs (aggregate_one z r b) = Inr b'"
      and "bucket_total b' = bucket_total (aggregate_one z r b) + length rs" by blast
  then show ?case using x aggregate_one_total [OF f, of z b] by simp
qed

lemma aggregate_raises:
  "Inl e \<in> set rs \<Longrightarrow> aggregate rs b = Inl (TypeError ''cannot unpack non-iterable object'')"
proof (induction rs arbitrary: b)
  case Nil
  then show ?case by simp
next
  case (Cons x rs)
  show ?case
  proof (cases x)
    case (Inl e')
    then show ?thesis by simp
  next
    case (Inr p)
    then show ?thesis using Cons by (cases p) auto
  qed
qed


lemma acquire_never_rejects:
  "1 \<le> max_requests env \<Longrightarrow> fst (acquire env zone st) = Inr ()"
  by (simp add: acquire_def Let_def split: list.splits)

lemma query_dns_total:
  assumes m: "1 \<le> max_requests env" and c: "1 \<le> cache_maxsize env"
    and r: "\<forall>k q rr e. resolve env k q rr \<noteq> Raises e"
  shows "\<exists>v. fst (query_dns env target zone rrtype st) = Inr v"
proof -
  obtain st1 where a: "acquire env zone st = (Inr (), st1)"
    using acquire_never_rejects [OF m, of zone st] by (cases "acquire env zone st") auto
  obtain g st2 where g: "get_cached target zone rrtype st1 = (g, st2)"
    by (cases "get_cached target zone rrtype st1")
  show ?thesis
  proof (cases g)
    case (Some v)
    then show ?thesis using a g by (simp add: query_dns_def)
  next
    case None
    have "fst (acquire env zone st) = Inr ()" using a by simp
    moreover have "fst (get_cached target zone rrtype (snd (acquire env zone st))) = None"
      using a g None by simp
    ultimately show ?thesis
      using query_dns_miss [of env zone st target rrtype] c r
      by (cases "resolve env (resolver_calls st) (build_dnsbl_query target zone) rrtype") auto
  qed
qed

lemma check_zone_total:
  assumes m: "1 \<le> max_requests env" and c: "1 \<le> cache_maxsize env"
    and r: "\<forall>k q rr e. resolve env k q rr \<noteq> Raises e"
  shows "\<exists>res. fst (check_zone env target zone include_txt st) = Inr res"
proof -
  obtain v st1 where q: "query_dns env target zone ''A'' st = (Inr v, st1)"
    using query_dns_total [OF m c r, of target zone "''A''" st]
    by (cases "query_dns env target zone ''A'' st") auto
  obtain a_status a_records where v: "v = (a_status, a_records)" by (cases v)
  obtain t st2 where t: "query_dns env target zone ''TXT'' st1 = (Inr t, st2)"
    using query_dns_total [OF m c r, of target zone "''TXT''" st1]
    by (cases "query_dns env target zone ''TXT'' st1") auto
  show ?thesis
    unfolding check_zone_after_query [OF q [unfolded v]] t
    by (cases t) (simp add: if_distrib [of fst] cong: if_cong)
qed

lemma gather_zone_checks_total:
  assumes m: "1 \<le> max_requests env" and c: "1 \<le> cache_maxsize env"
    and r: "\<forall>k q rr e. resolve env k q rr \<noteq> Raises e"
  shows "no_zone_check_raises env target include_txt zs st"
  unfolding no_zone_check_raises_def
proof (induction zs arbitrary: st)
  case Nil
  show ?case by simp
next
  case (Cons zone zs)
  obtain res where "fst (check_zone env target zone include_txt st) = Inr res"
    using check_zone_total [OF m c r] by blast
  then show ?case unfolding gather_zone_checks_Cons by (simp add: Cons)
qed


text \<open>
  Claim C10. When no zone check of a \<open>check_target\<close> call raises, the call returns a
  \<open>TargetResult\<close>, and the lengths of its three buckets and its count of not-listed
  zones add up to the number of zones given.
\<close>

theorem check_target_counts_every_zone:
  assumes h: "no_zone_check_raises env target include_txt zs st"
  shows "\<exists>tr. fst (check_target env target zs include_txt st) = Inr tr
           \<and> length (tr_listed tr) + length (tr_blocked tr) + length (tr_errors tr)
               + tr_not_listed_zones_count tr = length zs"
proof -
  obtain rs st1 where g: "gather_zone_checks env target include_txt zs st = (rs, st1)"
    by (cases "gather_zone_checks env target include_txt zs st")
  have all: "\<forall>x \<in> set rs. \<exists>z r. x = Inr (z, r) \<and> four_status r"
  proof
    fix x assume x: "x \<in> set rs"
    with h g obtain p where p: "x = Inr p"
      by (cases x) (auto simp: no_zone_check_raises_def list_all_iff)
    obtain z r where zr: "p = (z, r)" by (cases p)
    have "Inr (z, r) \<in> set (fst (gather_zone_checks env target include_txt zs st))"
      using x p zr g by simp
    then have "four_status r" by (rule gather_zone_checks_status)
    then show "\<exists>z r. x = Inr (z, r) \<and> four_status r" using p zr by blast
  qed
  have len: "length rs = length zs"
    using length_gather_zone_checks [of env target include_txt zs st] g by simp
  from aggregate_total [OF all,
      of "\<lparr>b_listed = [], b_blocked = [], b_errors = [], b_not_listed_count = 0\<rparr>"]
  obtain b' where
    a: "aggregate rs \<lparr>b_listed = [], b_blocked = [], b_errors = [], b_not_listed_count = 0\<rparr>
          = Inr b'"
    and t: "bucket_total b' = length rs"
    by (auto simp: bucket_total_def)
  show ?thesis
    using a t len by (simp add: check_target_def g bucket_total_def)
qed

lemma ipv4_1234: "ipv4_address ''1.2.3.4'' = Some 0x01020304"
  by (simp add: ipv4_address_def parse_octet_def is_digit_def digit_val_def)

lemma query_1234: "build_dnsbl_query ''1.2.3.4'' zone = ''4.3.2.1.'' @ zone"
  by (simp add: build_dnsbl_query_def ipv4_1234 ipv4_octets_def octet_str_def digit_char_def)

lemmas checker_defs = check_target_def check_zone_def query_dns_def acquire_def get_cached_def
  cache_get_def cache_and_return_def set_cache_def cache_set_def expire_def make_cache_key_def
  aggregate_one_def

lemma example_check_target:
  "fst (check_target example_env ''1.2.3.4'' [''bl.example.org'', ''dnsbl.example.net'']
          False example_world) =
     Inr \<lparr>tr_target = ''1.2.3.4'', tr_target_type = ''ip'',
          tr_listed = [\<lparr>le_zone = ''bl.example.org'', le_a = [''127.0.0.2''], le_txt = []\<rparr>],
          tr_blocked = [], tr_errors = [], tr_not_listed_zones_count = 1\<rparr>"
  by (simp add: checker_defs query_1234 ipv4_1234 example_env_def example_world_def Let_def
      is_spamhaus_blocked_def)

theorem check_target_counts_every_zone_witness:
  "no_zone_check_raises example_env ''1.2.3.4'' False
     [''bl.example.org'', ''dnsbl.example.net''] example_world
   \<and> fst (check_target example_env ''1.2.3.4'' [''bl.example.org'', ''dnsbl.example.net'']
            False example_world) =
       Inr \<lparr>tr_target = ''1.2.3.4'', tr_target_type = ''ip'',
            tr_listed = [\<lparr>le_zone = ''bl.example.org'', le_a = [''127.0.0.2''],
                          le_txt = []\<rparr>],
            tr_blocked = [], tr_errors = [], tr_not_listed_zones_count = 1\<rparr>
   \<and> length [\<lparr>le_zone = ''bl.example.org'', le_a = [''127.0.0.2''], le_txt = []\<rparr>]
       + length ([] :: blocked_entry list) + length ([] :: error_entry list) + (1 :: nat)
       = length [''bl.example.org'', ''dnsbl.example.net'']"
proof -
  have h: "no_zone_check_raises example_env ''1.2.3.4'' False
     [''bl.example.org'', ''dnsbl.example.net''] example_world"
    by (rule gather_zone_checks_total) (simp_all add: example_env_def)
  from check_target_counts_every_zone [OF h] obtain tr where
    r: "fst (check_target example_env ''1.2.3.4'' [''bl.example.org'', ''dnsbl.example.net'']
               False example_world) = Inr tr"
    and n: "length (tr_listed tr) + length (tr_blocked tr) + length (tr_errors tr)
               + tr_not_listed_zones_count tr
            = length [''bl.example.org'', ''dnsbl.example.net'']"
    by blast
  from r have tr: "tr = \<lparr>tr_target = ''1.2.3.4'', tr_target_type = ''ip'',
            tr_listed = [\<lparr>le_zone = ''bl.example.org'', le_a = [''127.0.0.2''],
                          le_txt = []\<rparr>],
            tr_blocked = [], tr_errors = [], tr_not_listed_zones_count = 1\<rparr>"
    unfolding example_check_target by simp
  from n have "length [\<lparr>le_zone = ''bl.example.org'', le_a = [''127.0.0.2''], le_txt = []\<rparr>]
       + length ([] :: blocked_entry list) + length ([] :: error_entry list) + (1 :: nat)
       = length [''bl.example.org'', ''dnsbl.example.net'']"
    unfolding tr by simp
  with h example_check_target show ?thesis by (intro conjI)
qed

lemma check_target_raises:
  assumes "Inl e \<in> set (fst (gather_zone_checks env target include_txt zs st))"
  shows "fst (check_target env target zs include_txt st) =
           Inl (TypeError ''cannot unpack non-iterable object'')"
proof -
  obtain rs st1 where g: "gather_zone_checks env target include_txt zs st = (rs, st1)"
    by (cases "gather_zone_checks env target include_txt zs st")
  with assms have "Inl e \<in> set rs" by simp
  from aggregate_raises [OF this,
      of "\<lparr>b_listed = [], b_blocked = [], b_errors = [], b_not_listed_count = 0\<rparr>"]
  show ?thesis by (simp add: check_target_def g)
qed

text \<open>
  Claim C3 fails on the code. With a resolver that raises on \<open>bad.example.org\<close>, the
  check of that zone raises, and the check of 1.2.3.4 against \<open>bl.example.org\<close> alone
  returns it listed; against both zones \<open>check_target\<close> returns no \<open>TargetResult\<close>
  but raises TypeError from the loop header, and \<open>check_multiple\<close> then counts the
  target as an error and reports nothing for it.
\<close>

theorem check_target_zone_exception_aborts:
  "fst (check_zone raising_env ''1.2.3.4'' ''bad.example.org'' False example_world) =
     Inl (OtherError ''connection lost'')
   \<and> fst (check_target raising_env ''1.2.3.4'' [''bl.example.org''] False example_world) =
       Inr \<lparr>tr_target = ''1.2.3.4'', tr_target_type = ''ip'',
            tr_listed = [\<lparr>le_zone = ''bl.example.org'', le_a = [''127.0.0.2''],
                          le_txt = []\<rparr>],
            tr_blocked = [], tr_errors = [], tr_not_listed_zones_count = 0\<rparr>
   \<and> fst (check_target raising_env ''1.2.3.4'' [''bad.example.org'', ''bl.example.org'']
            False example_world) =
       Inl (TypeError ''cannot unpack non-iterable object'')
   \<and> fst (check_multiple raising_env [''1.2.3.4''] [''bad.example.org'', ''bl.example.org'']
            False example_world) =
       (\<lparr>total_ips = 1, listed_ips = 0, blocked_ips = 0, error_ips = 1\<rparr>, [])"
proof -
  have a: "fst (check_zone raising_env ''1.2.3.4'' ''bad.example.org'' False example_world) =
     Inl (OtherError ''connection lost'')"
    by (simp add: checker_defs query_1234 raising_env_def example_env_def example_world_def
        Let_def)
  have b: "fst (check_target raising_env ''1.2.3.4'' [''bl.example.org''] False example_world) =
       Inr \<lparr>tr_target = ''1.2.3.4'', tr_target_type = ''ip'',
            tr_listed = [\<lparr>le_zone = ''bl.example.org'', le_a = [''127.0.0.2''],
                          le_txt = []\<rparr>],
            tr_blocked = [], tr_errors = [], tr_not_listed_zones_count = 0\<rparr>"
    by (simp add: checker_defs query_1234 ipv4_1234 raising_env_def example_env_def
        example_world_def Let_def is_spamhaus_blocked_def)
  have c: "fst (check_target raising_env ''1.2.3.4'' [''bad.example.org'', ''bl.example.org'']
            False example_world) =
       Inl (TypeError ''cannot unpack non-iterable object'')"
    by (rule check_target_raises [of "OtherError ''connection lost''"])
       (subst gather_zone_checks_Cons, simp add: a)
  have d: "fst (check_multiple raising_env [''1.2.3.4''] [''bad.example.org'', ''bl.example.org'']
            False example_world) =
       (\<lparr>total_ips = 1, listed_ips = 0, blocked_ips = 0, error_ips = 1\<rparr>, [])"
  proof -
    obtain x st1 where p: "check_target raising_env ''1.2.3.4''
        [''bad.example.org'', ''bl.example.org''] False example_world = (x, st1)"
      by (cases "check_target raising_env ''1.2.3.4''
        [''bad.example.org'', ''bl.example.org''] False example_world")
    with c have "x = Inl (TypeError ''cannot unpack non-iterable object'')" by simp
    then show ?thesis by (simp add: check_multiple_def p)
  qed
  from a b c d show ?thesis by (intro conjI)
qed

subsection \<open>The result cache in query_dns\<close>

lemma find_moved_last:
  "find (\<lambda>(k, v, e). k = key) (filter (\<lambda>(k, v, e). k \<noteq> key) c @ [(key, v, e)])
     = Some (key, v, e)"
  by (induction c) auto

lemma acquire_cache: "cache (snd (acquire env zone st)) = cache st"
  by (simp add: acquire_def Let_def split: list.splits)

lemma get_cached_clock: "clock (snd (get_cached target zone rrtype st)) = clock st"
  by (simp add: get_cached_def Let_def split: prod.splits)

lemma get_cached_hit:
  assumes "get_cached target zone rrtype st = (Some v, st1)"
  shows "\<exists>e. cache_entry target zone rrtype st1 = Some (make_cache_key target zone rrtype, v, e)
             \<and> clock st1 < e \<and> resolver_calls st1 = resolver_calls st"
  using assms
  by (auto simp: get_cached_def cache_get_def cache_entry_def find_moved_last Let_def
      split: option.splits if_splits)

lemma cache_and_return_entry:
  assumes "cache_and_return env target zone rrtype v st = (Inr v', st1)"
  shows "v' = v \<and> cache_entry target zone rrtype st1 =
           Some (make_cache_key target zone rrtype, v, clock st1 + cache_ttl env)
         \<and> resolver_calls st1 = resolver_calls st"
  using assms
  by (auto simp: cache_and_return_def set_cache_def cache_set_def cache_entry_def
      find_moved_last Let_def split: if_splits)

lemma find_key_shape:
  "find (\<lambda>(k, v, e). k = key) c = Some x \<Longrightarrow> fst x = key"
  by (induction c) (auto split: if_splits)

lemma get_cached_from_entry:
  assumes "cache_entry target zone rrtype st = Some (k, v, e)" and "clock st < e"
  shows "fst (get_cached target zone rrtype st) = Some v
         \<and> resolver_calls (snd (get_cached target zone rrtype st)) = resolver_calls st"
  using assms
  by (simp add: get_cached_def cache_get_def cache_entry_def Let_def)


lemma query_dns_writes:
  assumes q: "query_dns env target zone rrtype st = (Inr v, st1)"
  shows "\<exists>e. cache_entry target zone rrtype st1 =
               Some (make_cache_key target zone rrtype, v, e)
           \<and> (if fst (get_cached target zone rrtype (snd (acquire env zone st))) = None
               then e = clock st1 + cache_ttl env
                    \<and> resolver_calls st1 = Suc (resolver_calls st)
               else clock st1 < e \<and> resolver_calls st1 = resolver_calls st)"
proof -
  obtain a sa where a: "acquire env zone st = (a, sa)" by (cases "acquire env zone st")
  obtain g sg where g: "get_cached target zone rrtype sa = (g, sg)"
    by (cases "get_cached target zone rrtype sa")
  have ra: "resolver_calls sa = resolver_calls st"
    using acquire_resolver_calls [of env zone st] a by simp
  have rg: "resolver_calls sg = resolver_calls sa"
    using get_cached_resolver_calls [of target zone rrtype sa] g by simp
  show ?thesis
  proof (cases a)
    case (Inl e)
    with q a show ?thesis by (simp add: query_dns_def)
  next
    case (Inr u)
    show ?thesis
    proof (cases g)
      case (Some cached)
      with q a g Inr have "cached = v" "sg = st1" by (simp_all add: query_dns_def)
      with get_cached_hit [of target zone rrtype sa v st1] g Some ra a
      show ?thesis by auto
    next
      case None
      let ?st3 = "sg\<lparr>resolver_calls := Suc (resolver_calls sg)\<rparr>"
      let ?answer = "resolve env (resolver_calls sg) (build_dnsbl_query target zone) rrtype"
      have key: "\<And>v0. cache_and_return env target zone rrtype v0 ?st3 = (Inr v, st1)
                  \<Longrightarrow> ?thesis"
        using cache_and_return_entry [of env target zone rrtype _ ?st3 v st1] ra rg a g None
        by auto
      show ?thesis
      proof (cases ?answer)
        case (Answer recs)
        show ?thesis
          by (rule key [of "(''success'', recs)"])
             (use q a g Inr None Answer in \<open>simp add: query_dns_def Let_def\<close>)
      next
        case NXDOMAIN
        show ?thesis
          by (rule key [of "(''nxdomain'', [])"])
             (use q a g Inr None NXDOMAIN in \<open>simp add: query_dns_def Let_def\<close>)
      next
        case NoAnswer
        show ?thesis
          by (rule key [of "(''noanswer'', [])"])
             (use q a g Inr None NoAnswer in \<open>simp add: query_dns_def Let_def\<close>)
      next
        case Timeout
        show ?thesis
          by (rule key [of "(''timeout'', [])"])
             (use q a g Inr None Timeout in \<open>simp add: query_dns_def Let_def\<close>)
      next
        case DNSException
        show ?thesis
          by (rule key [of "(''error'', [])"])
             (use q a g Inr None DNSException in \<open>simp add: query_dns_def Let_def\<close>)
      next
        case (Raises ex)
        with q a g Inr None show ?thesis by (simp add: query_dns_def Let_def)
      qed
    qed
  qed
qed

text \<open>
  Claim C6. When \<open>_query_dns\<close> returns a classification (the five outcomes it
  handles), the cache holds it under the key of (target, zone, record type); after a miss
  its expiry is the time of the call plus the TTL. An identical lookup whose cache read
  happens before that expiry returns the same classification and records, and the number
  of resolver calls does not change.
\<close>

theorem query_dns_caches_every_outcome:
  assumes q: "query_dns env target zone rrtype st = (Inr v, st1)"
  shows "\<exists>e. cache_entry target zone rrtype st1 =
               Some (make_cache_key target zone rrtype, v, e)
           \<and> (fst (get_cached target zone rrtype (snd (acquire env zone st))) = None \<longrightarrow>
                 e = clock st1 + cache_ttl env)
           \<and> (\<forall>d. fst (acquire env zone (advance d st1)) = Inr ()
                    \<and> clock (snd (acquire env zone (advance d st1))) < e \<longrightarrow>
                  fst (query_dns env target zone rrtype (advance d st1)) = Inr v
                  \<and> resolver_calls (snd (query_dns env target zone rrtype (advance d st1)))
                      = resolver_calls st1)"
proof -
  from query_dns_writes [OF q] obtain e where
    e: "cache_entry target zone rrtype st1 = Some (make_cache_key target zone rrtype, v, e)"
    and m: "fst (get_cached target zone rrtype (snd (acquire env zone st))) = None \<longrightarrow>
                 e = clock st1 + cache_ttl env"
    by (auto split: if_splits)
  have r: "\<forall>d. fst (acquire env zone (advance d st1)) = Inr ()
                \<and> clock (snd (acquire env zone (advance d st1))) < e \<longrightarrow>
              fst (query_dns env target zone rrtype (advance d st1)) = Inr v
              \<and> resolver_calls (snd (query_dns env target zone rrtype (advance d st1)))
                  = resolver_calls st1"
  proof (intro allI impI)
    fix d
    assume h: "fst (acquire env zone (advance d st1)) = Inr ()
           \<and> clock (snd (acquire env zone (advance d st1))) < e"
    obtain sa where a: "acquire env zone (advance d st1) = (Inr (), sa)"
      using h by (cases "acquire env zone (advance d st1)") auto
    have ca: "cache sa = cache st1"
      using acquire_cache [of env zone "advance d st1"] a by (simp add: advance_def)
    have ra: "resolver_calls sa = resolver_calls st1"
      using acquire_resolver_calls [of env zone "advance d st1"] a by (simp add: advance_def)
    have ea: "cache_entry target zone rrtype sa =
                Some (make_cache_key target zone rrtype, v, e)"
      using e ca by (simp add: cache_entry_def)
    have "clock sa < e" using h a by simp
    from get_cached_from_entry [OF ea this]
    obtain sg where g: "get_cached target zone rrtype sa = (Some v, sg)"
      and rg: "resolver_calls sg = resolver_calls sa"
      by (cases "get_cached target zone rrtype sa") auto
    show "fst (query_dns env target zone rrtype (advance d st1)) = Inr v
           \<and> resolver_calls (snd (query_dns env target zone rrtype (advance d st1)))
               = resolver_calls st1"
      using a g rg ra by (simp add: query_dns_def)
  qed
  from e m r show ?thesis by (intro exI [of _ e] conjI)
qed


lemma flapping_first:
  "query_dns flapping_env ''1.2.3.4'' ''bl.example.org'' ''A'' example_world =
     (Inr (''success'', [''127.0.0.2'']),
      example_world\<lparr>requests := (requests example_world)(''bl.example.org'' := [10]),
                     cache := [(''1.2.3.4:bl.example.org:A'', (''success'', [''127.0.0.2'']),
                                3610)],
                     resolver_calls := 1\<rparr>)"
  by (simp add: query_dns_def acquire_def get_cached_def cache_get_def cache_and_return_def
      set_cache_def cache_set_def expire_def make_cache_key_def flapping_env_def
      example_env_def example_world_def Let_def)

theorem query_dns_caches_every_outcome_witness:
  "fst (query_dns flapping_env ''1.2.3.4'' ''bl.example.org'' ''A'' example_world) =
     Inr (''success'', [''127.0.0.2''])
   \<and> resolve flapping_env 1 (build_dnsbl_query ''1.2.3.4'' ''bl.example.org'') ''A'' = NXDOMAIN
   \<and> fst (query_dns flapping_env ''1.2.3.4'' ''bl.example.org'' ''A''
            (advance 60 (snd (query_dns flapping_env ''1.2.3.4'' ''bl.example.org'' ''A''
                                example_world)))) =
       Inr (''success'', [''127.0.0.2''])
   \<and> resolver_calls
        (snd (query_dns flapping_env ''1.2.3.4'' ''bl.example.org'' ''A''
                (advance 60 (snd (query_dns flapping_env ''1.2.3.4'' ''bl.example.org'' ''A''
                                    example_world))))) = 1"
proof -
  let ?st1 = "example_world\<lparr>requests := (requests example_world)(''bl.example.org'' := [10]),
                     cache := [(''1.2.3.4:bl.example.org:A'', (''success'', [''127.0.0.2'']),
                                3610)],
                     resolver_calls := 1\<rparr>"
  from query_dns_caches_every_outcome [OF flapping_first] obtain e where
    x: "cache_entry ''1.2.3.4'' ''bl.example.org'' ''A'' ?st1 =
          Some (make_cache_key ''1.2.3.4'' ''bl.example.org'' ''A'',
                (''success'', [''127.0.0.2'']), e)"
    and m: "fst (get_cached ''1.2.3.4'' ''bl.example.org'' ''A''
               (snd (acquire flapping_env ''bl.example.org'' example_world))) = None \<longrightarrow>
          e = clock ?st1 + cache_ttl flapping_env"
    and r: "\<forall>d. fst (acquire flapping_env ''bl.example.org'' (advance d ?st1)) = Inr ()
                    \<and> clock (snd (acquire flapping_env ''bl.example.org'' (advance d ?st1))) < e
              \<longrightarrow>
                  fst (query_dns flapping_env ''1.2.3.4'' ''bl.example.org'' ''A''
                         (advance d ?st1)) = Inr (''success'', [''127.0.0.2''])
                  \<and> resolver_calls (snd (query_dns flapping_env ''1.2.3.4'' ''bl.example.org''
                                            ''A'' (advance d ?st1)))
                      = resolver_calls ?st1"
    by (elim exE conjE)
  have "fst (get_cached ''1.2.3.4'' ''bl.example.org'' ''A''
               (snd (acquire flapping_env ''bl.example.org'' example_world))) = None"
    unfolding flapping_env_def by (rule example_cache_miss)
  with m have e: "e = 3610"
    by (simp add: flapping_env_def example_env_def example_world_def)
  have a: "fst (acquire flapping_env ''bl.example.org'' (advance 60 ?st1)) = Inr ()
           \<and> clock (snd (acquire flapping_env ''bl.example.org'' (advance 60 ?st1))) < e"
    unfolding e
    by (simp add: acquire_def advance_def flapping_env_def example_env_def example_world_def
        Let_def)
  note c = mp [OF spec [OF r] a]
  have n: "resolve flapping_env 1 (build_dnsbl_query ''1.2.3.4'' ''bl.example.org'') ''A''
             = NXDOMAIN"
    by (simp add: flapping_env_def)
  show ?thesis
    unfolding flapping_first using c n by simp
qed

subsection \<open>The rate limiter\<close>

text \<open>
  Claim C2 fails on the code. With a limit of one request per second, a caller at time 0
  and two callers at time 1/2 are granted at 0, 1 and 3/2: the second that starts at 1
  holds two grants. The sleeping caller records the time before its sleep, and the
  next caller measures its wait from that recorded time.
\<close>

theorem acquire_exceeds_limit:
  "max_requests limit_one_env = 1
   \<and> run_acquires limit_one_env ''bl.example.org'' [0, 1/2, 1/2] (example_world\<lparr>clock := 0\<rparr>)
       = [0, 1, 3/2]
   \<and> grants_in_window [0, 1, 3/2] 1 = 2"
  by (simp add: acquire_def grants_in_window_def limit_one_env_def example_env_def
      example_world_def Let_def)

subsection \<open>Alerts of the result loop\<close>

lemma apply_saved_append: "apply_saved (ps @ qs) m = apply_saved qs (apply_saved ps m)"
  by (simp add: apply_saved_def)

lemma apply_saved_Nil: "apply_saved [] m = m"
  by (simp add: apply_saved_def)

lemma apply_saved_Cons: "apply_saved ((t, z, s) # ps) m = apply_saved ps (m((t_id t, z_id z) \<mapsto> s))"
  by (simp add: apply_saved_def)

lemma find_update_first_same:
  "find P xs = Some x \<Longrightarrow> (\<And>y. P y \<Longrightarrow> P (f y)) \<Longrightarrow>
   find P (update_first P f xs) = Some (f x)"
  by (induction xs) (auto split: if_splits)

lemma find_update_first_other:
  "(\<And>x. P x \<Longrightarrow> \<not> Q x \<and> \<not> Q (f x)) \<Longrightarrow> find Q (update_first P f xs) = find Q xs"
  by (induction xs) auto

lemma find_snoc:
  "find Q (xs @ [x]) = (case find Q xs of Some y \<Rightarrow> Some y | None \<Rightarrow> if Q x then Some x else None)"
  by (induction xs) auto

lemma save_check_result_status:
  assumes ok: "save_check_result env t z s recs rid err w = (Inr u, w')"
  shows "stored_status w' = (stored_status w)((t_id t, z_id z) \<mapsto> s)"
proof (rule ext)
  fix p :: "int \<times> int"
  let ?P = "\<lambda>r. cr_target_id r = t_id t \<and> cr_zone_id r = z_id z"
  let ?Q = "\<lambda>r. cr_target_id r = fst p \<and> cr_zone_id r = snd p"
  let ?f = "\<lambda>r. r\<lparr>cr_status := s,
                     cr_a_records := (if recs \<noteq> [] then Some recs else None),
                     cr_last_checked := clock w,
                     cr_last_seen := (if s \<noteq> ''not_listed'' then clock w else cr_last_seen r),
                     cr_error_reason := err,
                     cr_run_id := Some rid\<rparr>"
  let ?rows = "db_check_results (store w)"
  obtain w1 where c: "db_call env w = (Inr (), w1)"
    using ok by (auto simp: save_check_result_def split: prod.splits sum.splits)
  have w1: "clock w1 = clock w" "store w1 = store w"
    using db_call_clock [of env w] db_call_store [of env w] c by simp_all
  show "stored_status w' p = ((stored_status w)((t_id t, z_id z) \<mapsto> s)) p"
  proof (cases "find ?P ?rows")
    case None
    have r': "db_check_results (store w') = ?rows @ [\<lparr>cr_target_id = t_id t, cr_zone_id = z_id z,
                cr_status = s, cr_a_records = (if recs \<noteq> [] then Some recs else None),
                cr_error_reason = err,
                cr_last_seen = clock w, cr_last_checked = clock w,
                cr_run_id = Some rid\<rparr>]"
      using None c w1 ok by (auto simp add: save_check_result_def Let_def)
    show ?thesis
    proof (cases "p = (t_id t, z_id z)")
      case True
      then show ?thesis using None by (simp add: stored_status_def r' find_snoc)
    next
      case False
      then have "\<not> (t_id t = fst p \<and> z_id z = snd p)" by (cases p) auto
      then show ?thesis using False
        by (auto simp add: stored_status_def r' find_snoc split: option.splits)
    qed
  next
    case (Some existing)
    have r': "db_check_results (store w') = update_first ?P ?f ?rows"
      using Some c w1 ok
      by (auto simp add: save_check_result_def Let_def cong: if_cong)
    show ?thesis
    proof (cases "p = (t_id t, z_id z)")
      case True
      have "find ?P (update_first ?P ?f ?rows) = Some (?f existing)"
        by (rule find_update_first_same [OF Some]) simp
      then show ?thesis using True by (simp add: stored_status_def r')
    next
      case False
      then have n: "\<not> (t_id t = fst p \<and> z_id z = snd p)" by (cases p) auto
      have "find ?Q (update_first ?P ?f ?rows) = find ?Q ?rows"
        by (rule find_update_first_other) (use n in auto)
      then show ?thesis using False by (simp add: stored_status_def r')
    qed
  qed
qed

lemma create_alert_status:
  "stored_status (snd (create_alert tg ty zn old new msg w)) = stored_status w"
  by (rule ext) (simp add: stored_status_def create_alert_def Let_def)

lemma process_listed_status:
  assumes "process_listed env prev t zone_map rid entries cnt w = (Inr cnt', w')"
  shows "stored_status w' =
           apply_saved (map (\<lambda>z. (t, z, ''listed''))
                          (List.map_filter (\<lambda>e. zone_map (le_zone e)) entries))
             (stored_status w)"
  using assms
proof (induction entries arbitrary: cnt w)
  case Nil
  then show ?case by (simp add: List.map_filter_simps apply_saved_Nil)
next
  case (Cons entry rest)
  show ?case
  proof (cases "zone_map (le_zone entry)")
    case None
    with Cons.prems have "process_listed env prev t zone_map rid rest cnt w = (Inr cnt', w')"
      by simp
    from Cons.IH [OF this] show ?thesis by (simp add: List.map_filter_simps None)
  next
    case (Some zone)
    obtain x w1 where s: "save_check_result env t zone ''listed'' (le_a entry) rid None w = (x, w1)"
      by (cases "save_check_result env t zone ''listed'' (le_a entry) rid None w")
    show ?thesis
    proof (cases x)
      case (Inl e)
      with Cons.prems Some s show ?thesis by simp
    next
      case (Inr u)
      define w2 where "w2 = (if prev (t_id t, z_id zone) \<noteq> Some ''listed''
                          then snd (create_alert (Some t) ''newly_listed'' (z_zone zone)
                                      (prev (t_id t, z_id zone)) ''listed''
                                      (''Target '' @ t_target t @ '' is now listed on ''
                                         @ z_zone zone) w1)
                          else w1)"
      define cnt1 where "cnt1 = cnt\<lparr>listed_count := listed_count cnt + 1,
                              total_checks := total_checks cnt + 1\<rparr>"
      have r: "process_listed env prev t zone_map rid rest cnt1 w2 = (Inr cnt', w')"
        using Cons.prems Some s Inr by (simp add: w2_def cnt1_def Let_def)
      have s1: "stored_status w1 = (stored_status w)((t_id t, z_id zone) \<mapsto> ''listed'')"
        by (rule save_check_result_status [OF s [unfolded Inr]])
      have s2: "stored_status w2 = stored_status w1"
        unfolding w2_def by (simp add: create_alert_status)
      have "stored_status w' =
              apply_saved (map (\<lambda>z. (t, z, ''listed''))
                             (List.map_filter (\<lambda>e. zone_map (le_zone e)) rest))
                ((stored_status w)((t_id t, z_id zone) \<mapsto> ''listed''))"
        using Cons.IH [OF r] unfolding s2 s1 .
      then show ?thesis
        by (simp only: List.map_filter_simps Some option.case list.map apply_saved_Cons)
    qed
  qed
qed

lemma process_blocked_status:
  assumes "process_blocked env prev t zone_map rid entries cnt w = (Inr cnt', w')"
  shows "stored_status w' =
           apply_saved (map (\<lambda>z. (t, z, ''blocked''))
                          (List.map_filter (\<lambda>e. zone_map (be_zone e)) entries))
             (stored_status w)"
  using assms
proof (induction entries arbitrary: cnt w)
  case Nil
  then show ?case by (simp add: List.map_filter_simps apply_saved_Nil)
next
  case (Cons entry rest)
  show ?case
  proof (cases "zone_map (be_zone entry)")
    case None
    with Cons.prems have "process_blocked env prev t zone_map rid rest cnt w = (Inr cnt', w')"
      by simp
    from Cons.IH [OF this] show ?thesis by (simp add: List.map_filter_simps None)
  next
    case (Some zone)
    obtain x w1 where s: "save_check_result env t zone ''blocked'' (be_a entry) rid None w = (x, w1)"
      by (cases "save_check_result env t zone ''blocked'' (be_a entry) rid None w")
    show ?thesis
    proof (cases x)
      case (Inl e)
      with Cons.prems Some s show ?thesis by simp
    next
      case (Inr u)
      define w2 where "w2 = (if prev (t_id t, z_id zone) \<noteq> Some ''blocked''
                          then snd (create_alert (Some t) ''blocked'' (z_zone zone)
                                      (prev (t_id t, z_id zone)) ''blocked''
                                      (''Target '' @ t_target t @ '' is blocked on ''
                                         @ z_zone zone @ '' (limits reached)'') w1)
                          else w1)"
      define cnt1 where "cnt1 = cnt\<lparr>blocked_count := blocked_count cnt + 1,
                              total_checks := total_checks cnt + 1\<rparr>"
      have r: "process_blocked env prev t zone_map rid rest cnt1 w2 = (Inr cnt', w')"
        using Cons.prems Some s Inr by (simp add: w2_def cnt1_def Let_def)
      have s1: "stored_status w1 = (stored_status w)((t_id t, z_id zone) \<mapsto> ''blocked'')"
        by (rule save_check_result_status [OF s [unfolded Inr]])
      have s2: "stored_status w2 = stored_status w1"
        unfolding w2_def by (simp add: create_alert_status)
      have "stored_status w' =
              apply_saved (map (\<lambda>z. (t, z, ''blocked''))
                             (List.map_filter (\<lambda>e. zone_map (be_zone e)) rest))
                ((stored_status w)((t_id t, z_id zone) \<mapsto> ''blocked''))"
        using Cons.IH [OF r] unfolding s2 s1 .
      then show ?thesis
        by (simp only: List.map_filter_simps Some option.case list.map apply_saved_Cons)
    qed
  qed
qed

lemma process_errors_status:
  assumes "process_errors env t zone_map rid entries cnt w = (Inr cnt', w')"
  shows "stored_status w' =
           apply_saved (map (\<lambda>z. (t, z, ''error''))
                          (List.map_filter (\<lambda>e. zone_map (ee_zone e)) entries))
             (stored_status w)"
  using assms
proof (induction entries arbitrary: cnt w)
  case Nil
  then show ?case by (simp add: List.map_filter_simps apply_saved_Nil)
next
  case (Cons entry rest)
  show ?case
  proof (cases "zone_map (ee_zone entry)")
    case None
    with Cons.prems have "process_errors env t zone_map rid rest cnt w = (Inr cnt', w')"
      by simp
    from Cons.IH [OF this] show ?thesis by (simp add: List.map_filter_simps None)
  next
    case (Some zone)
    obtain x w1 where
      s: "save_check_result env t zone ''error'' [] rid (Some (ee_error entry)) w = (x, w1)"
      by (cases "save_check_result env t zone ''error'' [] rid (Some (ee_error entry)) w")
    show ?thesis
    proof (cases x)
      case (Inl e)
      with Cons.prems Some s show ?thesis by simp
    next
      case (Inr u)
      have r: "process_errors env t zone_map rid rest
              (cnt\<lparr>error_count := error_count cnt + 1, total_checks := total_checks cnt + 1\<rparr>)
              w1 = (Inr cnt', w')"
        using Cons.prems Some s Inr by simp
      have s1: "stored_status w1 = (stored_status w)((t_id t, z_id zone) \<mapsto> ''error'')"
        by (rule save_check_result_status [OF s [unfolded Inr]])
      have "stored_status w' =
              apply_saved (map (\<lambda>z. (t, z, ''error''))
                             (List.map_filter (\<lambda>e. zone_map (ee_zone e)) rest))
                ((stored_status w)((t_id t, z_id zone) \<mapsto> ''error''))"
        using Cons.IH [OF r] unfolding s1 .
      then show ?thesis
        by (simp only: List.map_filter_simps Some option.case list.map apply_saved_Cons)
    qed
  qed
qed

lemma save_check_result_alerts:
  "db_alerts (store (snd (save_check_result env t z s recs rid err w))) = db_alerts (store w)"
  by (simp add: save_check_result_def db_call_def Let_def split: option.splits)

lemma create_alert_alerts:
  "\<exists>a. db_alerts (store (snd (create_alert (Some t) ty zn old new msg w))) = db_alerts (store w) @ [a]
       \<and> alert_key a = (ty, Some (t_id t), zn, old, new)"
  by (simp add: create_alert_def alert_key_def Let_def)

lemma alerts_step:
  assumes "db_alerts (store w1) = db_alerts (store w) @ xs"
    and "db_alerts (store w2) = db_alerts (store w1) @ ys"
  shows "db_alerts (store w2) = db_alerts (store w) @ (xs @ ys)"
  using assms by simp

lemma alert_expected_listed:
  "alert_expected prev (t, z, ''listed'') = (prev (t_id t, z_id z) \<noteq> Some ''listed'')"
  by (simp add: alert_expected_def)

lemma alert_expected_blocked:
  "alert_expected prev (t, z, ''blocked'') = (prev (t_id t, z_id z) \<noteq> Some ''blocked'')"
  by (simp add: alert_expected_def)

lemma alert_expected_error: "alert_expected prev (t, z, ''error'') = False"
  by (simp add: alert_expected_def)

lemma alert_of_listed:
  "alert_of prev (t, z, ''listed'') =
     (''newly_listed'', Some (t_id t), z_zone z, prev (t_id t, z_id z), ''listed'')"
  by (simp add: alert_of_def)

lemma alert_of_blocked:
  "alert_of prev (t, z, ''blocked'') =
     (''blocked'', Some (t_id t), z_zone z, prev (t_id t, z_id z), ''blocked'')"
  by (simp add: alert_of_def)

lemma map_filter_Cons_Some: "f x = Some y \<Longrightarrow> List.map_filter f (x # xs) = y # List.map_filter f xs"
  by (simp add: List.map_filter_simps)

lemma map_filter_Cons_None: "f x = None \<Longrightarrow> List.map_filter f (x # xs) = List.map_filter f xs"
  by (simp add: List.map_filter_simps)

lemma process_listed_alerts:
  assumes "process_listed env prev t zone_map rid entries cnt w = (Inr cnt', w')"
  shows "\<exists>new. db_alerts (store w') = db_alerts (store w) @ new
           \<and> map alert_key new =
               map (alert_of prev)
                 (filter (alert_expected prev)
                    (map (\<lambda>z. (t, z, ''listed''))
                       (List.map_filter (\<lambda>e. zone_map (le_zone e)) entries)))"
  using assms
proof (induction entries arbitrary: cnt w)
  case Nil
  then show ?case by (simp add: List.map_filter_simps)
next
  case (Cons entry rest)
  show ?case
  proof (cases "zone_map (le_zone entry)")
    case None
    with Cons.prems have "process_listed env prev t zone_map rid rest cnt w = (Inr cnt', w')"
      by simp
    from Cons.IH [OF this] show ?thesis by (simp add: List.map_filter_simps None)
  next
    case (Some zone)
    obtain x w1 where s: "save_check_result env t zone ''listed'' (le_a entry) rid None w = (x, w1)"
      by (cases "save_check_result env t zone ''listed'' (le_a entry) rid None w")
    have a1: "db_alerts (store w1) = db_alerts (store w)"
      using save_check_result_alerts [of env t zone "''listed''" "le_a entry" rid None w] s by simp
    show ?thesis
    proof (cases x)
      case (Inl e)
      with Cons.prems Some s show ?thesis by simp
    next
      case (Inr u)
      define w2 where "w2 = (if prev (t_id t, z_id zone) \<noteq> Some ''listed''
                          then snd (create_alert (Some t) ''newly_listed'' (z_zone zone)
                                      (prev (t_id t, z_id zone)) ''listed''
                                      (''Target '' @ t_target t @ '' is now listed on ''
                                         @ z_zone zone) w1)
                          else w1)"
      define cnt1 where "cnt1 = cnt\<lparr>listed_count := listed_count cnt + 1,
                              total_checks := total_checks cnt + 1\<rparr>"
      have r: "process_listed env prev t zone_map rid rest cnt1 w2 = (Inr cnt', w')"
        using Cons.prems Some s Inr by (simp add: w2_def cnt1_def Let_def)
      from Cons.IH [OF r] obtain new where
        n1: "db_alerts (store w') = db_alerts (store w2) @ new"
        and n2: "map alert_key new =
               map (alert_of prev)
                 (filter (alert_expected prev)
                    (map (\<lambda>z. (t, z, ''listed''))
                       (List.map_filter (\<lambda>e. zone_map (le_zone e)) rest)))"
        by blast
      show ?thesis
      proof (cases "prev (t_id t, z_id zone) \<noteq> Some ''listed''")
        case True
        from create_alert_alerts [of t "''newly_listed''" "z_zone zone" "prev (t_id t, z_id zone)"
            "''listed''" _ w1]
        obtain a where a: "db_alerts (store w2) = db_alerts (store w1) @ [a]"
          and k: "alert_key a = (''newly_listed'', Some (t_id t), z_zone zone,
                     prev (t_id t, z_id zone), ''listed'')"
          unfolding w2_def using True by auto
        have "db_alerts (store w') = db_alerts (store w) @ (a # new)"
          using n1 a a1 by simp
        moreover have "map alert_key (a # new) =
               map (alert_of prev)
                 (filter (alert_expected prev)
                    (map (\<lambda>z. (t, z, ''listed''))
                       (List.map_filter (\<lambda>e. zone_map (le_zone e)) (entry # rest))))"
          using n2 k True
          by (simp add: List.map_filter_simps Some alert_expected_listed
              alert_of_listed)
        ultimately show ?thesis by blast
      next
        case False
        then have "w2 = w1" by (simp add: w2_def)
        then have "db_alerts (store w') = db_alerts (store w) @ new" using n1 a1 by simp
        moreover have "map alert_key new =
               map (alert_of prev)
                 (filter (alert_expected prev)
                    (map (\<lambda>z. (t, z, ''listed''))
                       (List.map_filter (\<lambda>e. zone_map (le_zone e)) (entry # rest))))"
          using n2 False
          by (simp add: List.map_filter_simps Some alert_expected_listed)
        ultimately show ?thesis by blast
      qed
    qed
  qed
qed

lemma process_blocked_alerts:
  assumes "process_blocked env prev t zone_map rid entries cnt w = (Inr cnt', w')"
  shows "\<exists>new. db_alerts (store w') = db_alerts (store w) @ new
           \<and> map alert_key new =
               map (alert_of prev)
                 (filter (alert_expected prev)
                    (map (\<lambda>z. (t, z, ''blocked''))
                       (List.map_filter (\<lambda>e. zone_map (be_zone e)) entries)))"
  using assms
proof (induction entries arbitrary: cnt w)
  case Nil
  then show ?case by (simp add: List.map_filter_simps)
next
  case (Cons entry rest)
  show ?case
  proof (cases "zone_map (be_zone entry)")
    case None
    with Cons.prems have "process_blocked env prev t zone_map rid rest cnt w = (Inr cnt', w')"
      by simp
    from Cons.IH [OF this] show ?thesis by (simp add: List.map_filter_simps None)
  next
    case (Some zone)
    obtain x w1 where s: "save_check_result env t zone ''blocked'' (be_a entry) rid None w = (x, w1)"
      by (cases "save_check_result env t zone ''blocked'' (be_a entry) rid None w")
    have a1: "db_alerts (store w1) = db_alerts (store w)"
      using save_check_result_alerts [of env t zone "''blocked''" "be_a entry" rid None w] s by simp
    show ?thesis
    proof (cases x)
      case (Inl e)
      with Cons.prems Some s show ?thesis by simp
    next
      case (Inr u)
      define w2 where "w2 = (if prev (t_id t, z_id zone) \<noteq> Some ''blocked''
                          then snd (create_alert (Some t) ''blocked'' (z_zone zone)
                                      (prev (t_id t, z_id zone)) ''blocked''
                                      (''Target '' @ t_target t @ '' is blocked on ''
                                         @ z_zone zone @ '' (limits reached)'') w1)
                          else w1)"
      define cnt1 where "cnt1 = cnt\<lparr>blocked_count := blocked_count cnt + 1,
                              total_checks := total_checks cnt + 1\<rparr>"
      have r: "process_blocked env prev t zone_map rid rest cnt1 w2 = (Inr cnt', w')"
        using Cons.prems Some s Inr by (simp add: w2_def cnt1_def Let_def)
      from Cons.IH [OF r] obtain new where
        n1: "db_alerts (store w') = db_alerts (store w2) @ new"
        and n2: "map alert_key new =
               map (alert_of prev)
                 (filter (alert_expected prev)
                    (map (\<lambda>z. (t, z, ''blocked''))
                       (List.map_filter (\<lambda>e. zone_map (be_zone e)) rest)))"
        by blast
      show ?thesis
      proof (cases "prev (t_id t, z_id zone) \<noteq> Some ''blocked''")
        case True
        from create_alert_alerts [of t "''blocked''" "z_zone zone" "prev (t_id t, z_id zone)"
            "''blocked''" _ w1]
        obtain a where a: "db_alerts (store w2) = db_alerts (store w1) @ [a]"
          and k: "alert_key a = (''blocked'', Some (t_id t), z_zone zone,
                     prev (t_id t, z_id zone), ''blocked'')"
          unfolding w2_def using True by auto
        have "db_alerts (store w') = db_alerts (store w) @ (a # new)"
          using n1 a a1 by simp
        moreover have "map alert_key (a # new) =
               map (alert_of prev)
                 (filter (alert_expected prev)
                    (map (\<lambda>z. (t, z, ''blocked''))
                       (List.map_filter (\<lambda>e. zone_map (be_zone e)) (entry # rest))))"
          using n2 k True
          by (simp add: List.map_filter_simps Some alert_expected_blocked
              alert_of_blocked)
        ultimately show ?thesis by blast
      next
        case False
        then have "w2 = w1" by (simp add: w2_def)
        then have "db_alerts (store w') = db_alerts (store w) @ new" using n1 a1 by simp
        moreover have "map alert_key new =
               map (alert_of prev)
                 (filter (alert_expected prev)
                    (map (\<lambda>z. (t, z, ''blocked''))
                       (List.map_filter (\<lambda>e. zone_map (be_zone e)) (entry # rest))))"
          using n2 False
          by (simp add: List.map_filter_simps Some alert_expected_blocked)
        ultimately show ?thesis by blast
      qed
    qed
  qed
qed

lemma filter_expected_errors:
  "filter (alert_expected prev) (map (\<lambda>z. (t, z, ''error'')) zs) = []"
  by (induction zs) (simp_all add: alert_expected_error)

lemma process_errors_alerts:
  assumes "process_errors env t zone_map rid entries cnt w = (Inr cnt', w')"
  shows "db_alerts (store w') = db_alerts (store w)"
  using assms
proof (induction entries arbitrary: cnt w)
  case Nil
  then show ?case by simp
next
  case (Cons entry rest)
  show ?case
  proof (cases "zone_map (ee_zone entry)")
    case None
    with Cons.prems have "process_errors env t zone_map rid rest cnt w = (Inr cnt', w')"
      by simp
    from Cons.IH [OF this] show ?thesis .
  next
    case (Some zone)
    obtain x w1 where
      s: "save_check_result env t zone ''error'' [] rid (Some (ee_error entry)) w = (x, w1)"
      by (cases "save_check_result env t zone ''error'' [] rid (Some (ee_error entry)) w")
    have a1: "db_alerts (store w1) = db_alerts (store w)"
      using save_check_result_alerts [of env t zone "''error''" "[]" rid
          "Some (ee_error entry)" w] s by simp
    show ?thesis
    proof (cases x)
      case (Inl e)
      with Cons.prems Some s show ?thesis by simp
    next
      case (Inr u)
      have "process_errors env t zone_map rid rest
              (cnt\<lparr>error_count := error_count cnt + 1, total_checks := total_checks cnt + 1\<rparr>)
              w1 = (Inr cnt', w')"
        using Cons.prems Some s Inr by simp
      from Cons.IH [OF this] a1 show ?thesis by simp
    qed
  qed
qed

lemma process_results_alerts:
  assumes "process_results env prev target_map zone_map rid results cnt w = (Inr cnt', w')"
  shows "\<exists>new. db_alerts (store w') = db_alerts (store w) @ new
           \<and> map alert_key new =
               map (alert_of prev)
                 (filter (alert_expected prev) (saved_pairs target_map zone_map results))"
  using assms
proof (induction results arbitrary: cnt w)
  case Nil
  then show ?case by (simp add: saved_pairs_def)
next
  case (Cons result rest)
  show ?case
  proof (cases "target_map (tr_target result)")
    case None
    with Cons.prems have
      "process_results env prev target_map zone_map rid rest cnt w = (Inr cnt', w')"
      by simp
    from Cons.IH [OF this] show ?thesis by (simp add: saved_pairs_def None)
  next
    case (Some t)
    obtain x1 w1 where l: "process_listed env prev t zone_map rid (tr_listed result) cnt w
                             = (x1, w1)"
      by (cases "process_listed env prev t zone_map rid (tr_listed result) cnt w")
    show ?thesis
    proof (cases x1)
      case (Inl e)
      with Cons.prems Some l show ?thesis by (simp add: and_then_def)
    next
      case c1: (Inr cnt1)
      obtain x2 w2 where b: "process_blocked env prev t zone_map rid (tr_blocked result) cnt1 w1
                               = (x2, w2)"
        by (cases "process_blocked env prev t zone_map rid (tr_blocked result) cnt1 w1")
      show ?thesis
      proof (cases x2)
        case (Inl e)
        with Cons.prems Some l c1 b show ?thesis by (simp add: and_then_def)
      next
        case c2: (Inr cnt2)
        obtain x3 w3 where e: "process_errors env t zone_map rid (tr_errors result) cnt2 w2
                                 = (x3, w3)"
          by (cases "process_errors env t zone_map rid (tr_errors result) cnt2 w2")
        show ?thesis
        proof (cases x3)
          case (Inl e')
          with Cons.prems Some l c1 b c2 e show ?thesis by (simp add: and_then_def)
        next
          case c3: (Inr cnt3)
          have r: "process_results env prev target_map zone_map rid rest cnt3 w3 = (Inr cnt', w')"
            using Cons.prems Some l c1 b c2 e c3 by (simp add: and_then_def)
          from process_listed_alerts [OF l [unfolded c1]] obtain n1 where
            a1: "db_alerts (store w1) = db_alerts (store w) @ n1"
            and k1: "map alert_key n1 = map (alert_of prev) (filter (alert_expected prev)
                    (map (\<lambda>z. (t, z, ''listed''))
                       (List.map_filter (\<lambda>e. zone_map (le_zone e)) (tr_listed result))))"
            by blast
          from process_blocked_alerts [OF b [unfolded c2]] obtain n2 where
            a2: "db_alerts (store w2) = db_alerts (store w1) @ n2"
            and k2: "map alert_key n2 = map (alert_of prev) (filter (alert_expected prev)
                    (map (\<lambda>z. (t, z, ''blocked''))
                       (List.map_filter (\<lambda>e. zone_map (be_zone e)) (tr_blocked result))))"
            by blast
          have a3: "db_alerts (store w3) = db_alerts (store w2)"
            by (rule process_errors_alerts [OF e [unfolded c3]])
          from Cons.IH [OF r] obtain n4 where
            a4: "db_alerts (store w') = db_alerts (store w3) @ n4"
            and k4: "map alert_key n4 = map (alert_of prev)
                 (filter (alert_expected prev) (saved_pairs target_map zone_map rest))"
            by blast
          have "db_alerts (store w') = db_alerts (store w) @ (n1 @ n2 @ n4)"
            using a1 a2 a3 a4 by simp
          moreover have "map alert_key (n1 @ n2 @ n4) =
               map (alert_of prev)
                 (filter (alert_expected prev)
                    (saved_pairs target_map zone_map (result # rest)))"
            using k1 k2 k4
            by (simp add: saved_pairs_def saved_of_result_def Some filter_expected_errors)
          ultimately show ?thesis by blast
        qed
      qed
    qed
  qed
qed

lemma process_results_status:
  assumes "process_results env prev target_map zone_map rid results cnt w = (Inr cnt', w')"
  shows "stored_status w' = apply_saved (saved_pairs target_map zone_map results) (stored_status w)"
  using assms
proof (induction results arbitrary: cnt w)
  case Nil
  then show ?case by (simp add: saved_pairs_def apply_saved_Nil)
next
  case (Cons result rest)
  show ?case
  proof (cases "target_map (tr_target result)")
    case None
    with Cons.prems have
      "process_results env prev target_map zone_map rid rest cnt w = (Inr cnt', w')"
      by simp
    from Cons.IH [OF this] show ?thesis by (simp add: saved_pairs_def None)
  next
    case (Some t)
    obtain x1 w1 where l: "process_listed env prev t zone_map rid (tr_listed result) cnt w
                             = (x1, w1)"
      by (cases "process_listed env prev t zone_map rid (tr_listed result) cnt w")
    show ?thesis
    proof (cases x1)
      case (Inl e)
      with Cons.prems Some l show ?thesis by (simp add: and_then_def)
    next
      case c1: (Inr cnt1)
      obtain x2 w2 where b: "process_blocked env prev t zone_map rid (tr_blocked result) cnt1 w1
                               = (x2, w2)"
        by (cases "process_blocked env prev t zone_map rid (tr_blocked result) cnt1 w1")
      show ?thesis
      proof (cases x2)
        case (Inl e)
        with Cons.prems Some l c1 b show ?thesis by (simp add: and_then_def)
      next
        case c2: (Inr cnt2)
        obtain x3 w3 where e: "process_errors env t zone_map rid (tr_errors result) cnt2 w2
                                 = (x3, w3)"
          by (cases "process_errors env t zone_map rid (tr_errors result) cnt2 w2")
        show ?thesis
        proof (cases x3)
          case (Inl e')
          with Cons.prems Some l c1 b c2 e show ?thesis by (simp add: and_then_def)
        next
          case c3: (Inr cnt3)
          have r: "process_results env prev target_map zone_map rid rest cnt3 w3 = (Inr cnt', w')"
            using Cons.prems Some l c1 b c2 e c3 by (simp add: and_then_def)
          note s1 = process_listed_status [OF l [unfolded c1]]
          note s2 = process_blocked_status [OF b [unfolded c2]]
          note s3 = process_errors_status [OF e [unfolded c3]]
          note s4 = Cons.IH [OF r]
          have sp: "saved_pairs target_map zone_map (result # rest) =
                      saved_of_result zone_map t result @ saved_pairs target_map zone_map rest"
            by (simp add: saved_pairs_def Some)
          show ?thesis
            unfolding sp saved_of_result_def apply_saved_append s4 s3 s2 s1 ..
        qed
      qed
    qed
  qed
qed

text \<open>
  Claim C5. When the result loop of \<open>run_monitoring\<close> completes, the stored status of
  every pair is that of its last save, the alerts that existed are kept, and the alerts
  added are, in order, one for each save whose status is \<open>listed\<close> or \<open>blocked\<close>
  and differs from the snapshot status of its pair (also when the snapshot has none),
  carrying that old status and the new one. A save of the snapshot status and a save of
  an \<open>error\<close> add no alert.
\<close>

theorem alerts_follow_status_changes:
  assumes "fst (process_results env previous_statuses target_map zone_map run_id results cnt w)
             = Inr cnt'"
  defines "w' \<equiv> snd (process_results env previous_statuses target_map zone_map run_id results
                       cnt w)"
  shows "stored_status w' =
           apply_saved (saved_pairs target_map zone_map results) (stored_status w)
         \<and> alerts_extend w w'
         \<and> map alert_key (new_alerts w w') =
             map (alert_of previous_statuses)
               (filter (alert_expected previous_statuses)
                  (saved_pairs target_map zone_map results))"
proof -
  have p: "process_results env previous_statuses target_map zone_map run_id results cnt w
          = (Inr cnt', w')"
    using assms(1) by (simp add: w'_def prod_eq_iff)
  note s = process_results_status [OF p]
  from process_results_alerts [OF p] obtain new where
    "db_alerts (store w') = db_alerts (store w) @ new"
    and "map alert_key new =
               map (alert_of previous_statuses)
                 (filter (alert_expected previous_statuses)
                    (saved_pairs target_map zone_map results))"
    by blast
  then show ?thesis using s by (simp add: alerts_extend_def new_alerts_def)
qed

lemmas monitoring_defs = save_check_result_def create_alert_def db_call_def and_then_def
  dict_of_def

theorem alerts_follow_status_changes_witness:
  "fst (process_results example_env (Map.empty((1, 1) \<mapsto> ''listed''))
          (dict_of [(''1.2.3.4'', example_target)])
          (dict_of [(''bl.example.org'', example_zone), (''dnsbl.example.net'', second_zone)])
          2 [example_result]
          \<lparr>total_checks = 0, listed_count = 0, blocked_count = 0, error_count = 0\<rparr>
          example_world)
     = Inr \<lparr>total_checks = 2, listed_count = 2, blocked_count = 0, error_count = 0\<rparr>
   \<and> map alert_key
        (new_alerts example_world
           (snd (process_results example_env (Map.empty((1, 1) \<mapsto> ''listed''))
                   (dict_of [(''1.2.3.4'', example_target)])
                   (dict_of [(''bl.example.org'', example_zone),
                             (''dnsbl.example.net'', second_zone)])
                   2 [example_result]
                   \<lparr>total_checks = 0, listed_count = 0, blocked_count = 0, error_count = 0\<rparr>
                   example_world)))
     = [(''newly_listed'', Some 1, ''dnsbl.example.net'', None, ''listed'')]"
proof -
  have ok: "fst (process_results example_env (Map.empty((1, 1) \<mapsto> ''listed''))
          (dict_of [(''1.2.3.4'', example_target)])
          (dict_of [(''bl.example.org'', example_zone), (''dnsbl.example.net'', second_zone)])
          2 [example_result]
          \<lparr>total_checks = 0, listed_count = 0, blocked_count = 0, error_count = 0\<rparr>
          example_world)
     = Inr \<lparr>total_checks = 2, listed_count = 2, blocked_count = 0, error_count = 0\<rparr>"
    by (simp add: monitoring_defs example_result_def second_zone_def example_defs Let_def)
  have e: "map (alert_of (Map.empty((1, 1) \<mapsto> ''listed'')))
             (filter (alert_expected (Map.empty((1, 1) \<mapsto> ''listed'')))
                (saved_pairs (dict_of [(''1.2.3.4'', example_target)])
                   (dict_of [(''bl.example.org'', example_zone),
                             (''dnsbl.example.net'', second_zone)]) [example_result]))
           = [(''newly_listed'', Some 1, ''dnsbl.example.net'', None, ''listed'')]"
    by (simp add: saved_pairs_def saved_of_result_def dict_of_def List.map_filter_simps
        alert_expected_def alert_of_def example_result_def second_zone_def example_defs)
  from conjunct2 [OF conjunct2 [OF alerts_follow_status_changes [OF ok]]] ok e
  show ?thesis by simp
qed

end
